theory Spec2Isabelle
  imports Complex_Main "HOL-Library.AList"
begin

section \<open>JavaScript values, errors and the runtime\<close>

text \<open>
  The plugin reads every payload of the Komga server as an untyped JavaScript value
  (\<^verbatim>\<open>any\<close>), so the model keeps the values dynamic. A number carries the real
  value of a finite double (comparison of finite doubles is comparison of their values);
  a string is a list of 8-bit characters; an object is its list of properties, the
  first binding of a key being the one that is read.
\<close>

datatype jsval =
    JUndefined
  | JNull
  | JBool bool
  | JNum real
  | JStr string
  | JArr "jsval list"
  | JObj "(string \<times> jsval) list"

text \<open>Every \<^verbatim>\<open>throw\<close> and every rejected promise is a value of this type.\<close>

datatype error =
    TransportError
  | SyntaxError
  | TypeError
  | CredentialsError

text \<open>
  The built-in operations of the JavaScript runtime that the code calls and that are
  not part of the repository: \<^verbatim>\<open>JSON.parse\<close> (\<open>None\<close> is a thrown SyntaxError),
  the conversion of a value to a string in a template literal or a concatenation, the
  conversion to a number in a relational comparison (\<open>None\<close> is NaN), and
  \<^verbatim>\<open>new Date(v).valueOf()\<close> (\<open>None\<close> is an invalid date, NaN).
\<close>

record runtime =
  JSON_parse :: "string \<Rightarrow> jsval option"
  ToString :: "jsval \<Rightarrow> string"
  ToNumber :: "jsval \<Rightarrow> real option"
  Date_valueOf :: "jsval \<Rightarrow> real option"

text \<open>\<^verbatim>\<open>typeof v === 'string'\<close>\<close>

fun is_string :: "jsval \<Rightarrow> bool" where
  "is_string (JStr s) = True"
| "is_string v = False"

text \<open>\<^verbatim>\<open>v == null\<close>: true of null and of undefined only.\<close>

fun is_nullish :: "jsval \<Rightarrow> bool" where
  "is_nullish JUndefined = True"
| "is_nullish JNull = True"
| "is_nullish v = False"

text \<open>
  String conversion \<^verbatim>\<open>`${v}`\<close> and \<^verbatim>\<open>'s' + v\<close>. The cases whose result the
  language fixes without number formatting are written out; the others are the
  runtime's.
\<close>

definition to_string :: "runtime \<Rightarrow> jsval \<Rightarrow> string" where
  "to_string rt v =
     (case v of
        JStr s \<Rightarrow> s
      | JUndefined \<Rightarrow> ''undefined''
      | JNull \<Rightarrow> ''null''
      | JBool b \<Rightarrow> (if b then ''true'' else ''false'')
      | _ \<Rightarrow> ToString rt v)"

text \<open>Number conversion of the operand of \<^verbatim>\<open><=\<close>; \<open>None\<close> is NaN.\<close>

definition to_number :: "runtime \<Rightarrow> jsval \<Rightarrow> real option" where
  "to_number rt v =
     (case v of
        JNum x \<Rightarrow> Some x
      | JUndefined \<Rightarrow> None
      | JNull \<Rightarrow> Some 0
      | JBool b \<Rightarrow> Some (if b then 1 else 0)
      | _ \<Rightarrow> ToNumber rt v)"

text \<open>\<^verbatim>\<open>v <= t\<close> for a number \<open>t\<close>: false when \<open>v\<close> converts to NaN.\<close>

definition js_le :: "runtime \<Rightarrow> jsval \<Rightarrow> real \<Rightarrow> bool" where
  "js_le rt v t = (case to_number rt v of None \<Rightarrow> False | Some x \<Rightarrow> x \<le> t)"

text \<open>
  Property read \<^verbatim>\<open>v.k\<close>: a TypeError on null and undefined, the property of an
  object, \<^verbatim>\<open>length\<close> of an array or a string, and undefined otherwise.
\<close>

definition get_prop :: "jsval \<Rightarrow> string \<Rightarrow> error + jsval" where
  "get_prop v k =
     (case v of
        JUndefined \<Rightarrow> Inl TypeError
      | JNull \<Rightarrow> Inl TypeError
      | JObj ps \<Rightarrow> Inr (case map_of ps k of None \<Rightarrow> JUndefined | Some x \<Rightarrow> x)
      | JArr xs \<Rightarrow> Inr (if k = ''length'' then JNum (real (length xs)) else JUndefined)
      | JStr s \<Rightarrow> Inr (if k = ''length'' then JNum (real (length s)) else JUndefined)
      | _ \<Rightarrow> Inr JUndefined)"

text \<open>Optional chaining \<^verbatim>\<open>v?.k\<close>: undefined on null and undefined.\<close>

definition get_opt :: "jsval \<Rightarrow> string \<Rightarrow> jsval" where
  "get_opt v k = (case get_prop v k of Inl e \<Rightarrow> JUndefined | Inr x \<Rightarrow> x)"

text \<open>
  \<^verbatim>\<open>for (const x of v)\<close>: the elements of an array, the characters of a string, and
  a TypeError for a value that is not iterable.
\<close>

definition iterate :: "jsval \<Rightarrow> error + jsval list" where
  "iterate v =
     (case v of
        JArr xs \<Rightarrow> Inr xs
      | JStr s \<Rightarrow> Inr (map (\<lambda>c. JStr [c]) s)
      | _ \<Rightarrow> Inl TypeError)"

text \<open>\<^verbatim>\<open>v.map(f)\<close> exists on arrays only; on any other value the call is a TypeError.\<close>

definition as_array :: "jsval \<Rightarrow> error + jsval list" where
  "as_array v = (case v of JArr xs \<Rightarrow> Inr xs | _ \<Rightarrow> Inl TypeError)"

text \<open>Sequencing of computations that may throw.\<close>

definition bind :: "error + 'a \<Rightarrow> ('a \<Rightarrow> error + 'b) \<Rightarrow> error + 'b" where
  "bind m f = (case m of Inl e \<Rightarrow> Inl e | Inr x \<Rightarrow> f x)"

text \<open>Running a throwing function over a list, stopping at the first throw.\<close>

fun map_throw :: "('a \<Rightarrow> error + 'b) \<Rightarrow> 'a list \<Rightarrow> error + 'b list" where
  "map_throw f [] = Inr []"
| "map_throw f (x # xs) =
     (case f x of
        Inl e \<Rightarrow> Inl e
      | Inr y \<Rightarrow> (case map_throw f xs of Inl e \<Rightarrow> Inl e | Inr ys \<Rightarrow> Inr (y # ys)))"

section \<open>Response normalization\<close>

text \<open>
  The pattern every endpoint call applies to \<^verbatim>\<open>response.data\<close>:
  \<^verbatim>\<open>typeof data === 'string' ? JSON.parse(data) : data\<close>.
\<close>

definition normalize :: "runtime \<Rightarrow> jsval \<Rightarrow> error + jsval" where
  "normalize rt d =
     (case d of
        JStr s \<Rightarrow> (case JSON_parse rt s of None \<Rightarrow> Inl SyntaxError | Some v \<Rightarrow> Inr v)
      | _ \<Rightarrow> Inr d)"

section \<open>A model of \<^verbatim>\<open>JSON.parse\<close>\<close>

text \<open>
  The grammar of ECMA-404: white space, the three literals, numbers with fraction and
  exponent, strings with their escapes, arrays and objects. The recursion over nested
  values is bounded by a fuel that the entry point sets to twice the length of the
  text, more than any nesting it can hold. A number is read at its exact value, where the built-in
  rounds it to a double. A \<^verbatim>\<open>\u\<close> escape above 255 has no 8-bit character and is
  rejected: there the model is narrower than the built-in.
\<close>

definition is_ws :: "char \<Rightarrow> bool" where
  "is_ws c = (c = CHR '' '' \<or> c = CHR 0x09 \<or> c = CHR 0x0A \<or> c = CHR 0x0D)"

definition skip_ws :: "string \<Rightarrow> string" where
  "skip_ws cs = dropWhile is_ws cs"

definition is_digit :: "char \<Rightarrow> bool" where
  "is_digit c = (48 \<le> (of_char c :: nat) \<and> (of_char c :: nat) \<le> 57)"

definition digit_val :: "char \<Rightarrow> nat" where
  "digit_val c = of_char c - 48"

definition digits_val :: "string \<Rightarrow> nat" where
  "digits_val ds = foldl (\<lambda>n c. 10 * n + digit_val c) 0 ds"

definition hex_val :: "char \<Rightarrow> nat option" where
  "hex_val c =
     (if is_digit c then Some (digit_val c)
      else if 97 \<le> (of_char c :: nat) \<and> (of_char c :: nat) \<le> 102 then Some (of_char c - 87)
      else if 65 \<le> (of_char c :: nat) \<and> (of_char c :: nat) \<le> 70 then Some (of_char c - 55)
      else None)"

text \<open>The characters of a string after its opening quote, up to the closing one.\<close>

fun parse_chars :: "string \<Rightarrow> (string \<times> string) option" where
  "parse_chars [] = None"
| "parse_chars (c # cs) =
     (if c = CHR 0x22 then Some ([], cs)
      else if (of_char c :: nat) < 32 then None
      else if c = CHR 0x5C then
        (case cs of
           [] \<Rightarrow> None
         | e # r \<Rightarrow>
             (if e = CHR ''u'' then
                (case r of
                   h1 # h2 # h3 # h4 # r' \<Rightarrow>
                     (case (hex_val h1, hex_val h2, hex_val h3, hex_val h4) of
                        (Some a, Some b, Some c', Some d) \<Rightarrow>
                          (let n = ((a * 16 + b) * 16 + c') * 16 + d in
                           if n < 256 then
                             (case parse_chars r' of
                                None \<Rightarrow> None
                              | Some (s, r'') \<Rightarrow> Some (char_of n # s, r''))
                           else None)
                      | _ \<Rightarrow> None)
                 | _ \<Rightarrow> None)
              else
                (case (if e = CHR 0x22 then Some (CHR 0x22)
                       else if e = CHR 0x5C then Some (CHR 0x5C)
                       else if e = CHR ''/'' then Some (CHR ''/'')
                       else if e = CHR ''b'' then Some (CHR 0x08)
                       else if e = CHR ''f'' then Some (CHR 0x0C)
                       else if e = CHR ''n'' then Some (CHR 0x0A)
                       else if e = CHR ''r'' then Some (CHR 0x0D)
                       else if e = CHR ''t'' then Some (CHR 0x09)
                       else None) of
                   None \<Rightarrow> None
                 | Some x \<Rightarrow>
                     (case parse_chars r of
                        None \<Rightarrow> None
                      | Some (s, r') \<Rightarrow> Some (x # s, r')))))
      else
        (case parse_chars cs of
           None \<Rightarrow> None
         | Some (s, r) \<Rightarrow> Some (c # s, r)))"

text \<open>A number: optional minus, integer part without leading zero, fraction, exponent.\<close>

definition parse_number :: "string \<Rightarrow> (real \<times> string) option" where
  "parse_number cs =
     (let (neg, r0) = (case cs of c # r \<Rightarrow> if c = CHR ''-'' then (True, r) else (False, cs)
                                | [] \<Rightarrow> (False, cs));
          ip = takeWhile is_digit r0;
          r1 = dropWhile is_digit r0
      in if ip = [] \<or> (length ip > 1 \<and> hd ip = CHR ''0'') then None
         else
           (case (case r1 of
                    c # r \<Rightarrow>
                      if c = CHR ''.'' then
                        (let fp = takeWhile is_digit r in
                         if fp = [] then None else Some (fp, dropWhile is_digit r))
                      else Some ([], r1)
                  | [] \<Rightarrow> Some ([], r1)) of
              None \<Rightarrow> None
            | Some (fp, r2) \<Rightarrow>
                (case (case r2 of
                         c # r \<Rightarrow>
                           if c = CHR ''e'' \<or> c = CHR ''E'' then
                             (let (eneg, r') =
                                    (case r of
                                       s # t \<Rightarrow>
                                         if s = CHR ''-'' then (True, t)
                                         else if s = CHR ''+'' then (False, t)
                                         else (False, r)
                                     | [] \<Rightarrow> (False, r));
                                  ep = takeWhile is_digit r'
                              in if ep = [] then None
                                 else Some (eneg, digits_val ep, dropWhile is_digit r'))
                           else Some (False, 0, r2)
                       | [] \<Rightarrow> Some (False, 0, r2)) of
                   None \<Rightarrow> None
                 | Some (eneg, ex, r3) \<Rightarrow>
                     (let m = real (digits_val ip) + real (digits_val fp) / 10 ^ length fp;
                          x = (if eneg then m / 10 ^ ex else m * 10 ^ ex)
                      in Some (if neg then - x else x, r3)))))"

text \<open>
  A value, the elements of an array after its bracket, and the members of an object
  after its brace.
\<close>

fun parse_value :: "nat \<Rightarrow> string \<Rightarrow> (jsval \<times> string) option"
  and parse_elements :: "nat \<Rightarrow> string \<Rightarrow> (jsval list \<times> string) option"
  and parse_members :: "nat \<Rightarrow> string \<Rightarrow> ((string \<times> jsval) list \<times> string) option"
where
  "parse_value 0 cs = None"
| "parse_value (Suc n) cs =
     (case skip_ws cs of
        [] \<Rightarrow> None
      | c # r \<Rightarrow>
          (if c = CHR ''['' then
             (case skip_ws r of
                [] \<Rightarrow> None
              | d # r' \<Rightarrow>
                  if d = CHR '']'' then Some (JArr [], r')
                  else map_option (\<lambda>(xs, t). (JArr xs, t)) (parse_elements n r))
           else if c = CHR ''{'' then
             (case skip_ws r of
                [] \<Rightarrow> None
              | d # r' \<Rightarrow>
                  if d = CHR ''}'' then Some (JObj [], r')
                  else map_option (\<lambda>(ps, t). (JObj ps, t)) (parse_members n r))
           else if c = CHR 0x22 then map_option (\<lambda>(s, t). (JStr s, t)) (parse_chars r)
           else if take 4 (c # r) = ''null'' then Some (JNull, drop 4 (c # r))
           else if take 4 (c # r) = ''true'' then Some (JBool True, drop 4 (c # r))
           else if take 5 (c # r) = ''false'' then Some (JBool False, drop 5 (c # r))
           else map_option (\<lambda>(x, t). (JNum x, t)) (parse_number (c # r))))"
| "parse_elements 0 cs = None"
| "parse_elements (Suc n) cs =
     (case parse_value n cs of
        None \<Rightarrow> None
      | Some (v, r) \<Rightarrow>
          (case skip_ws r of
             [] \<Rightarrow> None
           | c # r' \<Rightarrow>
               if c = CHR '']'' then Some ([v], r')
               else if c = CHR '','' then
                 map_option (\<lambda>(vs, t). (v # vs, t)) (parse_elements n r')
               else None))"
| "parse_members 0 cs = None"
| "parse_members (Suc n) cs =
     (case skip_ws cs of
        [] \<Rightarrow> None
      | q # r \<Rightarrow>
          if q \<noteq> CHR 0x22 then None
          else
            (case parse_chars r of
               None \<Rightarrow> None
             | Some (k, r1) \<Rightarrow>
                 (case skip_ws r1 of
                    [] \<Rightarrow> None
                  | c # r2 \<Rightarrow>
                      if c \<noteq> CHR '':'' then None
                      else
                        (case parse_value n r2 of
                           None \<Rightarrow> None
                         | Some (v, r3) \<Rightarrow>
                             (case skip_ws r3 of
                                [] \<Rightarrow> None
                              | d # r4 \<Rightarrow>
                                  if d = CHR ''}'' then Some ([(k, v)], r4)
                                  else if d = CHR '','' then
                                    map_option (\<lambda>(ps, t). ((k, v) # ps, t))
                                      (parse_members n r4)
                                  else None)))))"

text \<open>
  The whole text is one value between white space. Of two members with one key
  \<^verbatim>\<open>JSON.parse\<close> keeps the later, so the members are stored in reverse.
\<close>

fun last_wins :: "jsval \<Rightarrow> jsval" where
  "last_wins (JArr xs) = JArr (map last_wins xs)"
| "last_wins (JObj ps) = JObj (rev (map (\<lambda>(k, v). (k, last_wins v)) ps))"
| "last_wins v = v"

definition json_parse :: "string \<Rightarrow> jsval option" where
  "json_parse s =
     (case parse_value (2 * length s + 2) s of
        None \<Rightarrow> None
      | Some (v, r) \<Rightarrow> if skip_ws r = [] then Some (last_wins v) else None)"

text \<open>
  A runtime whose \<^verbatim>\<open>JSON.parse\<close> is the model above. Its three conversions are
  only reached for numbers, arrays and objects, which the inputs evaluated below do
  not convert.
\<close>

definition rt0 :: runtime where
  "rt0 = \<lparr> JSON_parse = json_parse, ToString = (\<lambda>v. []), ToNumber = (\<lambda>v. None),
           Date_valueOf = (\<lambda>v. case v of JNum x \<Rightarrow> Some x | _ \<Rightarrow> None) \<rparr>"

section \<open>Requests, responses and the request manager\<close>

text \<open>
  \<^verbatim>\<open>App.createRequest\<close> builds a request from the fields the caller gives; an
  absent \<^verbatim>\<open>param\<close> is the empty string, absent \<^verbatim>\<open>headers\<close> are \<open>None\<close>, and
  an absent \<^verbatim>\<open>data\<close> (the field \<open>body\<close> here) is undefined.
\<close>

record request =
  url :: string
  param :: string
  http_method :: string
  headers :: "(string \<times> jsval) list option"
  body :: jsval

record response =
  status :: int
  data :: jsval

text \<open>
  The request manager and the server behind it belong to the host. The model gives
  them as an oracle that answers a request, knowing every request made before it, with
  a response or with the error the promise of \<^verbatim>\<open>schedule\<close> is rejected with. The
  log is the sequence of requests handed to \<^verbatim>\<open>requestManager.schedule\<close>.
\<close>

type_synonym server = "request list \<Rightarrow> request \<Rightarrow> error + response"

definition schedule ::
  "server \<Rightarrow> request \<Rightarrow> request list \<Rightarrow> (error + response) \<times> request list" where
  "schedule srv req lg = (srv lg req, lg @ [req])"

definition createRequest :: "string \<Rightarrow> string \<Rightarrow> string \<Rightarrow> request" where
  "createRequest u p m = \<lparr> url = u, param = p, http_method = m, headers = None, body = JUndefined \<rparr>"

section \<open>The state manager and the helpers of \<^verbatim>\<open>./Common\<close>\<close>

text \<open>
  What the settings store holds: the base URL of the API (\<open>None\<close> when unset), the
  stored authorization string as the keychain returns it, and the two display flags.
\<close>

record stateManager =
  komgaAPI :: "string option"
  authorization :: jsval
  showOnDeck :: bool
  showContinueReading :: bool

text \<open>
  Modelled from the spec: \<^verbatim>\<open>getKomgaAPI\<close> of \<^verbatim>\<open>./Common\<close>, which is not among the
  sources. It reads the stored base URL. \<^verbatim>\<open>getHomePageSections\<close> calls it because it
  must not throw when the settings are unset, and compares its result with null, as
  \<^verbatim>\<open>getMangaProgress\<close> does: an unset URL is the value null and not an exception.
\<close>

definition getKomgaAPI :: "stateManager \<Rightarrow> string option" where
  "getKomgaAPI sm = komgaAPI sm"

text \<open>\<^verbatim>\<open>`${komgaAPI}`\<close>: the text \<^verbatim>\<open>null\<close> when the URL is null.\<close>

definition api_string :: "string option \<Rightarrow> string" where
  "api_string a = (case a of None \<Rightarrow> ''null'' | Some u \<Rightarrow> u)"

text \<open>
  Modelled from the spec: \<^verbatim>\<open>getAuthorizationString\<close> of \<^verbatim>\<open>./Common\<close>, which is
  not among the sources. It returns the stored credentials and fails with a
  credentials error when there are none, as the comment in the interceptor says it does.
\<close>

definition getAuthorizationString :: "stateManager \<Rightarrow> error + jsval" where
  "getAuthorizationString sm =
     (if is_nullish (authorization sm) then Inl CredentialsError else Inr (authorization sm))"

text \<open>
  Modelled from the spec: \<^verbatim>\<open>getOptions\<close> of \<^verbatim>\<open>./Common\<close>, which is not among the
  sources, returns the two boolean display preferences.
\<close>

definition getOptions :: "stateManager \<Rightarrow> bool \<times> bool" where
  "getOptions sm = (showOnDeck sm, showContinueReading sm)"

section \<open>The authorization interceptors\<close>

text \<open>Reading a header: undefined when the header set does not define it.\<close>

definition header :: "(string \<times> jsval) list \<Rightarrow> string \<Rightarrow> jsval" where
  "header hs k = (case map_of hs k of None \<Rightarrow> JUndefined | Some v \<Rightarrow> v)"

definition request_header :: "request \<Rightarrow> string \<Rightarrow> jsval" where
  "request_header r k = (case headers r of None \<Rightarrow> JUndefined | Some hs \<Rightarrow> header hs k)"

definition auth_header :: "request \<Rightarrow> jsval" where
  "auth_header r = request_header r ''authorization''"

text \<open>
  \<^verbatim>\<open>KomgaRequestInterceptor.interceptRequest\<close> of the source plugin: absent headers
  become the empty set, and the authorization is injected only if none is defined.
  Assigning a property replaces its value in place or appends it, which is
  \<^const>\<open>AList.update\<close>.
\<close>

definition interceptRequest :: "stateManager \<Rightarrow> request \<Rightarrow> error + request" where
  "interceptRequest sm r =
     (let hs = (case headers r of None \<Rightarrow> [] | Some h \<Rightarrow> h) in
      if is_nullish (header hs ''authorization'') then
        (case getAuthorizationString sm of
           Inl e \<Rightarrow> Inl e
         | Inr a \<Rightarrow> Inr (r\<lparr> headers := Some (AList.update ''authorization'' a hs) \<rparr>))
      else Inr (r\<lparr> headers := Some hs \<rparr>))"

text \<open>
  The tracker plugin bundled in the same file has its own \<^verbatim>\<open>getAuthorizationString\<close>
  (it throws on a stored null) and its own interceptor, which merges with
  \<^verbatim>\<open>Object.assign\<close>: the request's headers, then the two content headers, then the
  authorization when the stored string is not null.
\<close>

definition tracker_getAuthorizationString :: "stateManager \<Rightarrow> error + jsval" where
  "tracker_getAuthorizationString sm =
     (if authorization sm = JNull then Inl CredentialsError else Inr (authorization sm))"

definition assign :: "(string \<times> jsval) list \<Rightarrow> (string \<times> jsval) list \<Rightarrow> (string \<times> jsval) list" where
  "assign target src = foldl (\<lambda>t (k, v). AList.update k v t) target src"

definition tracker_interceptRequest :: "stateManager \<Rightarrow> request \<Rightarrow> error + request" where
  "tracker_interceptRequest sm r =
     (case tracker_getAuthorizationString sm of
        Inl e \<Rightarrow> Inl e
      | Inr authorizationString \<Rightarrow>
          Inr (r\<lparr> headers := Some
                 (assign
                    (assign
                       (assign [] (case headers r of None \<Rightarrow> [] | Some h \<Rightarrow> h))
                       [(''content-type'', JStr ''application/json''),
                        (''accept'', JStr ''application/json'')])
                    (if \<not> is_nullish authorizationString
                     then [(''authorization'', authorizationString)] else [])) \<rparr>))"

section \<open>The tag catalog\<close>

record tag =
  tag_id :: string
  tag_label :: string

record tagSection =
  section_id :: string
  section_label :: string
  tags :: "tag list"

text \<open>
  \<^verbatim>\<open>capitalize\<close>: \<^verbatim>\<open>tag.replace(/^\w/, c => c.toUpperCase())\<close>. The class
  \<^verbatim>\<open>\w\<close> is the ASCII letters, the digits and the underscore, of which only the
  lower-case letters change. A value that is not a string has no \<^verbatim>\<open>replace\<close>.
\<close>

definition toUpperCase :: "char \<Rightarrow> char" where
  "toUpperCase c =
     (if 97 \<le> (of_char c :: nat) \<and> (of_char c :: nat) \<le> 122
      then char_of ((of_char c :: nat) - 32) else c)"

definition capitalize :: "jsval \<Rightarrow> error + string" where
  "capitalize v =
     (case v of
        JStr s \<Rightarrow> Inr (case s of [] \<Rightarrow> [] | c # cs \<Rightarrow> toUpperCase c # cs)
      | _ \<Rightarrow> Inl TypeError)"

text \<open>The two shapes of tag the catalog builds: from a string, and from an object
  with \<^verbatim>\<open>id\<close> and \<^verbatim>\<open>name\<close>.\<close>

definition string_tag :: "runtime \<Rightarrow> string \<Rightarrow> jsval \<Rightarrow> error + tag" where
  "string_tag rt prefix elem =
     bind (capitalize elem)
       (\<lambda>l. Inr \<lparr> tag_id = prefix @ to_string rt elem, tag_label = l \<rparr>)"

definition object_tag :: "runtime \<Rightarrow> string \<Rightarrow> jsval \<Rightarrow> error + tag" where
  "object_tag rt prefix elem =
     bind (get_prop elem ''id'')
       (\<lambda>i. bind (get_prop elem ''name'')
          (\<lambda>n. bind (capitalize n)
             (\<lambda>l. Inr \<lparr> tag_id = prefix @ to_string rt i, tag_label = l \<rparr>)))"

text \<open>
  The part of \<^verbatim>\<open>getTags\<close> after the \<^verbatim>\<open>try\<close> block, which may throw: the four
  bodies are normalized, the four sections filled, and the collections section is
  spliced out when there is at most one collection.
\<close>

definition tagSections ::
  "runtime \<Rightarrow> jsval \<Rightarrow> jsval \<Rightarrow> jsval \<Rightarrow> jsval \<Rightarrow> error + tagSection list" where
  "tagSections rt gd td cd ld =
     bind (normalize rt gd) (\<lambda>genresResult.
     bind (normalize rt td) (\<lambda>tagsResult.
     bind (normalize rt cd) (\<lambda>collectionResult.
     bind (normalize rt ld) (\<lambda>libraryResult.
     bind (as_array genresResult) (\<lambda>gs.
     bind (map_throw (string_tag rt ''genre-'') gs) (\<lambda>t0.
     bind (as_array tagsResult) (\<lambda>ts.
     bind (map_throw (string_tag rt ''tag-'') ts) (\<lambda>t1.
     bind (get_prop collectionResult ''content'') (\<lambda>content.
     bind (as_array content) (\<lambda>cs.
     bind (map_throw (object_tag rt ''collection-'') cs) (\<lambda>t2.
     bind (as_array libraryResult) (\<lambda>ls.
     bind (map_throw (object_tag rt ''library-'') ls) (\<lambda>t3.
       (let s0 = \<lparr> section_id = ''0'', section_label = ''genres'', tags = t0 \<rparr>;
            s1 = \<lparr> section_id = ''1'', section_label = ''tags'', tags = t1 \<rparr>;
            s2 = \<lparr> section_id = ''2'', section_label = ''collections'', tags = t2 \<rparr>;
            s3 = \<lparr> section_id = ''3'', section_label = ''libraries'', tags = t3 \<rparr>
        in Inr (if length cs \<le> 1 then [s0, s1, s3] else [s0, s1, s2, s3])))))))))))))))"

definition server_unavailable :: tagSection where
  "server_unavailable = \<lparr> section_id = ''-1'', section_label = ''Server unavailable'', tags = [] \<rparr>"

text \<open>
  \<^verbatim>\<open>getTags\<close>: four requests in a \<^verbatim>\<open>try\<close> block whose \<^verbatim>\<open>catch\<close> returns the
  placeholder section, then the part that may throw.
\<close>

definition getTags ::
  "runtime \<Rightarrow> server \<Rightarrow> stateManager \<Rightarrow> request list \<Rightarrow> (error + tagSection list) \<times> request list" where
  "getTags rt srv sm lg =
     (let api = api_string (getKomgaAPI sm) in
      case schedule srv (createRequest (api @ ''/genres'') [] ''GET'') lg of
        (Inl e, lg1) \<Rightarrow> (Inr [server_unavailable], lg1)
      | (Inr genresResponse, lg1) \<Rightarrow>
      (case schedule srv (createRequest (api @ ''/tags/series'') [] ''GET'') lg1 of
        (Inl e, lg2) \<Rightarrow> (Inr [server_unavailable], lg2)
      | (Inr tagsResponse, lg2) \<Rightarrow>
      (case schedule srv (createRequest (api @ ''/collections'') [] ''GET'') lg2 of
        (Inl e, lg3) \<Rightarrow> (Inr [server_unavailable], lg3)
      | (Inr collectionResponse, lg3) \<Rightarrow>
      (case schedule srv (createRequest (api @ ''/libraries'') [] ''GET'') lg3 of
        (Inl e, lg4) \<Rightarrow> (Inr [server_unavailable], lg4)
      | (Inr libraryResponse, lg4) \<Rightarrow>
          (tagSections rt (data genresResponse) (data tagsResponse)
             (data collectionResponse) (data libraryResponse), lg4)))))"

section \<open>Home page sections\<close>

text \<open>
  A tile of \<^verbatim>\<open>App.createPartialSourceManga\<close>. The title and the manga id are passed
  as the payload has them; the image is a template string.
\<close>

record partialSourceManga =
  title :: jsval
  image :: string
  mangaId :: jsval

text \<open>A home section; \<open>items\<close> is empty while the section is a placeholder.\<close>

record homeSection =
  hs_id :: string
  hs_title :: string
  items :: "partialSourceManga list"
  containsMoreItems :: bool

text \<open>
  One tile of a section: \<^verbatim>\<open>serie.metadata.title\<close>,
  \<^verbatim>\<open>`${thumbPath}/${serie.id}/thumbnail`\<close> and \<^verbatim>\<open>serie[idProp]\<close>, read in this order.
\<close>

definition tile :: "runtime \<Rightarrow> string \<Rightarrow> string \<Rightarrow> jsval \<Rightarrow> error + partialSourceManga" where
  "tile rt thumbPath idProp serie =
     bind (get_prop serie ''metadata'') (\<lambda>m.
     bind (get_prop m ''title'') (\<lambda>t.
     bind (get_prop serie ''id'') (\<lambda>i.
     bind (get_prop serie idProp) (\<lambda>mid.
       Inr \<lparr> title = t, image = thumbPath @ ''/'' @ to_string rt i @ ''/thumbnail'',
             mangaId = mid \<rparr>))))"

text \<open>The tiles of a response: normalize, then iterate over \<^verbatim>\<open>result.content\<close>.\<close>

definition tiles_of :: "runtime \<Rightarrow> string \<Rightarrow> string \<Rightarrow> jsval \<Rightarrow> error + partialSourceManga list" where
  "tiles_of rt thumbPath idProp d =
     bind (normalize rt d) (\<lambda>result.
     bind (get_prop result ''content'') (\<lambda>content.
     bind (iterate content) (\<lambda>series.
       map_throw (tile rt thumbPath idProp) series)))"

text \<open>
  The section shown when the server is not configured. Its items are the value of
  \<^verbatim>\<open>getServerUnavailableMangaTiles()\<close> of \<^verbatim>\<open>./Common\<close>, which is not among
  the sources: the model takes them as a parameter.
\<close>

definition unset_section :: "partialSourceManga list \<Rightarrow> homeSection" where
  "unset_section unavailableTiles =
     \<lparr> hs_id = ''unset'',
       hs_title = ''Go to source settings to set your Komga server credentials.'',
       items = unavailableTiles, containsMoreItems = False \<rparr>"

text \<open>The sections the source defines, in the order they are pushed.\<close>

definition home_sections :: "bool \<Rightarrow> bool \<Rightarrow> homeSection list" where
  "home_sections onDeck continueReading =
     (if onDeck
      then [\<lparr> hs_id = ''ondeck'', hs_title = ''On Deck'', items = [], containsMoreItems = False \<rparr>]
      else []) @
     (if continueReading
      then [\<lparr> hs_id = ''continue'', hs_title = ''Continue Reading'', items = [],
              containsMoreItems = False \<rparr>]
      else []) @
     [\<lparr> hs_id = ''new'', hs_title = ''Recently added series'', items = [],
        containsMoreItems = True \<rparr>,
      \<lparr> hs_id = ''updated'', hs_title = ''Recently updated series'', items = [],
        containsMoreItems = True \<rparr>]"

text \<open>The \<^verbatim>\<open>switch\<close> on the section id: the request, the thumbnail path and the id property.\<close>

definition section_request :: "string \<Rightarrow> homeSection \<Rightarrow> request" where
  "section_request api sec =
     (if hs_id sec = ''ondeck'' then
        createRequest (api @ ''/books/'' @ hs_id sec) ''?page=0&size=20&deleted=false'' ''GET''
      else if hs_id sec = ''continue'' then
        createRequest (api @ ''/books'')
          ''?sort=readProgress.readDate,desc&read_status=IN_PROGRESS&page=0&size=20&deleted=false''
          ''GET''
      else
        createRequest (api @ ''/series/'' @ hs_id sec) ''?page=0&size=20&deleted=false'' ''GET'')"

definition section_thumbPath :: "string \<Rightarrow> homeSection \<Rightarrow> string" where
  "section_thumbPath api sec =
     (if hs_id sec = ''ondeck'' \<or> hs_id sec = ''continue'' then api @ ''/books''
      else api @ ''/series'')"

definition section_idProp :: "homeSection \<Rightarrow> string" where
  "section_idProp sec =
     (if hs_id sec = ''ondeck'' \<or> hs_id sec = ''continue'' then ''seriesId'' else ''id'')"

text \<open>
  The loop over the sections has no \<^verbatim>\<open>await\<close>: every request is scheduled, in
  order, before any response is handled.
\<close>

fun schedule_all ::
  "server \<Rightarrow> request list \<Rightarrow> request list \<Rightarrow> (error + response) list \<times> request list" where
  "schedule_all srv [] lg = ([], lg)"
| "schedule_all srv (r # rs) lg =
     (case schedule srv r lg of
        (out, lg1) \<Rightarrow> (case schedule_all srv rs lg1 of (outs, lg2) \<Rightarrow> (out # outs, lg2)))"

text \<open>
  The \<^verbatim>\<open>then\<close> handler of one section: a rejected request or a throw in the handler
  rejects the section's promise; otherwise the section is reported with its tiles.
\<close>

definition settle_section ::
  "runtime \<Rightarrow> string \<Rightarrow> homeSection \<Rightarrow> error + response \<Rightarrow> error + homeSection" where
  "settle_section rt api sec out =
     bind out (\<lambda>resp.
     bind (tiles_of rt (section_thumbPath api sec) (section_idProp sec) (data resp)) (\<lambda>ts.
       Inr (sec\<lparr> items := ts \<rparr>)))"

text \<open>\<^verbatim>\<open>await Promise.all(promises)\<close> rejects when one of the promises does.\<close>

fun all_settled :: "(error + 'a) list \<Rightarrow> error + unit" where
  "all_settled [] = Inr ()"
| "all_settled (Inl e # rs) = Inl e"
| "all_settled (Inr x # rs) = all_settled rs"

fun fulfilled :: "(error + 'a) list \<Rightarrow> 'a list" where
  "fulfilled [] = []"
| "fulfilled (Inl e # rs) = fulfilled rs"
| "fulfilled (Inr x # rs) = x # fulfilled rs"

text \<open>
  \<^verbatim>\<open>getHomePageSections\<close>. The result is the outcome of the promise, the sequence
  of sections passed to \<^verbatim>\<open>sectionCallback\<close>, and the log. The handlers of the
  responses run in an order the host decides; the model runs them in the order of the
  sections, and reports as the rejection the first one in that order.
\<close>

definition getHomePageSections ::
  "runtime \<Rightarrow> server \<Rightarrow> stateManager \<Rightarrow> partialSourceManga list \<Rightarrow> request list \<Rightarrow>
     ((error + unit) \<times> homeSection list) \<times> request list" where
  "getHomePageSections rt srv sm unavailableTiles lg =
     (case getKomgaAPI sm of
        None \<Rightarrow> ((Inr (), [unset_section unavailableTiles]), lg)
      | Some api \<Rightarrow>
          (let sections = home_sections (fst (getOptions sm)) (snd (getOptions sm));
               (outs, lg1) = schedule_all srv (map (section_request api) sections) lg;
               settled = map (\<lambda>(sec, out). settle_section rt api sec out) (zip sections outs)
           in ((all_settled settled, sections @ fulfilled settled), lg1)))"

section \<open>Loading the next page\<close>

text \<open>The decimal text of a page number in a template string.\<close>

fun show_nat :: "nat \<Rightarrow> string" where
  "show_nat n =
     (if n < 10 then [char_of (48 + n)] else show_nat (n div 10) @ [char_of (48 + n mod 10)])"

declare show_nat.simps [simp del]

definition PAGE_SIZE :: nat where
  "PAGE_SIZE = 40"

record pagedResults =
  results :: "partialSourceManga list"
  metadata :: "nat option"

definition viewMore_request :: "string \<Rightarrow> string \<Rightarrow> nat \<Rightarrow> request" where
  "viewMore_request api homepageSectionId page =
     createRequest (api @ ''/series/'' @ homepageSectionId)
       (''?page='' @ show_nat page @ ''&size='' @ show_nat PAGE_SIZE @ ''&deleted=false'')
       ''GET''"

text \<open>
  The cursor \<^verbatim>\<open>metadata\<close> is either undefined or the \<^verbatim>\<open>{ page }\<close> that
  \<^verbatim>\<open>getViewMoreItems\<close> returned before; the page is \<^verbatim>\<open>metadata?.page ?? 0\<close>.
\<close>

definition page_of :: "nat option \<Rightarrow> nat" where
  "page_of md = (case md of None \<Rightarrow> 0 | Some p \<Rightarrow> p)"

text \<open>
  \<^verbatim>\<open>getViewMoreItems\<close>: one request at the page of the cursor; the next cursor is
  undefined when no tile was built, and the next page otherwise.
\<close>

definition getViewMoreItems ::
  "runtime \<Rightarrow> server \<Rightarrow> stateManager \<Rightarrow> string \<Rightarrow> nat option \<Rightarrow> request list \<Rightarrow>
     (error + pagedResults) \<times> request list" where
  "getViewMoreItems rt srv sm homepageSectionId md lg =
     (let api = api_string (getKomgaAPI sm);
          page = page_of md
      in case schedule srv (viewMore_request api homepageSectionId page) lg of
           (Inl e, lg1) \<Rightarrow> (Inl e, lg1)
         | (Inr resp, lg1) \<Rightarrow>
             (bind (tiles_of rt (api @ ''/series'') ''id'' (data resp)) (\<lambda>tiles.
                Inr \<lparr> results = tiles,
                      metadata = (if length tiles = 0 then None else Some (page + 1)) \<rparr>),
              lg1))"

text \<open>
  The host's use of the cursor: it asks for the next page as long as a cursor comes
  back, and collects the items. The fuel bounds the number of calls; \<open>None\<close> means the
  walk was still going when the fuel ran out.
\<close>

fun viewMore_walk ::
  "nat \<Rightarrow> runtime \<Rightarrow> server \<Rightarrow> stateManager \<Rightarrow> string \<Rightarrow> nat option \<Rightarrow> request list \<Rightarrow>
     ((error + partialSourceManga list) \<times> request list) option" where
  "viewMore_walk 0 rt srv sm sid md lg = None"
| "viewMore_walk (Suc n) rt srv sm sid md lg =
     (case getViewMoreItems rt srv sm sid md lg of
        (Inl e, lg1) \<Rightarrow> Some (Inl e, lg1)
      | (Inr pr, lg1) \<Rightarrow>
          (case metadata pr of
             None \<Rightarrow> Some (Inr (results pr), lg1)
           | Some p \<Rightarrow>
               (case viewMore_walk n rt srv sm sid (Some p) lg1 of
                  None \<Rightarrow> None
                | Some (Inl e, lg2) \<Rightarrow> Some (Inl e, lg2)
                | Some (Inr ts, lg2) \<Rightarrow> Some (Inr (results pr @ ts), lg2))))"

section \<open>The walk over the updated series\<close>

text \<open>
  \<^verbatim>\<open>serieUpdated >= time\<close> compares the time values of two dates, and is false when
  one of them is invalid.
\<close>

definition date_ge :: "real option \<Rightarrow> real option \<Rightarrow> bool" where
  "date_ge a b = (case (a, b) of (Some x, Some y) \<Rightarrow> y \<le> x | _ \<Rightarrow> False)"

text \<open>
  \<^verbatim>\<open>ids.includes(v)\<close> on an array of strings compares with SameValueZero: a string
  is found by its characters, and no other value is equal to a string.
\<close>

definition array_includes :: "string list \<Rightarrow> jsval \<Rightarrow> bool" where
  "array_includes ids v = (case v of JStr s \<Rightarrow> s \<in> set ids | _ \<Rightarrow> False)"

text \<open>The time of one item: \<^verbatim>\<open>new Date(serie.metadata.lastModified)\<close>.\<close>

definition serieUpdated :: "runtime \<Rightarrow> jsval \<Rightarrow> error + real option" where
  "serieUpdated rt serie =
     bind (get_prop serie ''metadata'') (\<lambda>m.
     bind (get_prop m ''lastModified'') (\<lambda>lm. Inr (Date_valueOf rt lm)))"

text \<open>
  The inner \<^verbatim>\<open>for\<close> loop over one page. It pushes \<^verbatim>\<open>serie\<close>, the item itself,
  when \<^verbatim>\<open>ids.includes(serie)\<close>. The boolean is \<^verbatim>\<open>loadMore\<close> after the loop: false
  when the loop met an older item and broke.
\<close>

fun scan_page ::
  "runtime \<Rightarrow> real option \<Rightarrow> string list \<Rightarrow> jsval list \<Rightarrow> jsval list \<Rightarrow>
     (error + bool) \<times> jsval list" where
  "scan_page rt time ids [] foundIds = (Inr True, foundIds)"
| "scan_page rt time ids (serie # rest) foundIds =
     (case serieUpdated rt serie of
        Inl e \<Rightarrow> (Inl e, foundIds)
      | Inr u \<Rightarrow>
          if date_ge u time then
            scan_page rt time ids rest
              (if array_includes ids serie then foundIds @ [serie] else foundIds)
          else (Inr False, foundIds))"

definition updated_request :: "string \<Rightarrow> nat \<Rightarrow> request" where
  "updated_request api page =
     createRequest (api @ ''/series/updated'')
       (''?page='' @ show_nat page @ ''&size='' @ show_nat PAGE_SIZE @ ''&deleted=false'')
       ''GET''"

text \<open>
  The \<^verbatim>\<open>while (loadMore)\<close> loop. Its state is the page, the accumulated
  \<^verbatim>\<open>foundIds\<close>, the sequence of \<^verbatim>\<open>ids\<close> arrays passed to the callback, and the log.
  Nothing bounds the number of pages a server may return, so the loop takes a fuel, the
  number of pages it may ask for. The outcome is \<open>None\<close> when the walk is still going
  after that many pages; the calls and the log are then those made so far.
\<close>

fun updated_loop ::
  "nat \<Rightarrow> runtime \<Rightarrow> server \<Rightarrow> string \<Rightarrow> real option \<Rightarrow> string list \<Rightarrow> nat \<Rightarrow> jsval list \<Rightarrow>
     jsval list list \<Rightarrow> request list \<Rightarrow>
     (error + unit) option \<times> jsval list list \<times> request list" where
  "updated_loop 0 rt srv api time ids page foundIds calls lg = (None, calls, lg)"
| "updated_loop (Suc n) rt srv api time ids page foundIds calls lg =
     (case schedule srv (updated_request api page) lg of
        (Inl e, lg1) \<Rightarrow> (Some (Inl e), calls, lg1)
      | (Inr resp, lg1) \<Rightarrow>
          (case bind (normalize rt (data resp)) (\<lambda>result.
                bind (get_prop result ''content'') iterate) of
             Inl e \<Rightarrow> (Some (Inl e), calls, lg1)
           | Inr series \<Rightarrow>
               (case scan_page rt time ids series foundIds of
                  (Inl e, found1) \<Rightarrow> (Some (Inl e), calls, lg1)
                | (Inr go, found1) \<Rightarrow>
                    (let loadMore = (if length series = 0 then False else go);
                         calls1 = (if length found1 > 0 then calls @ [found1] else calls)
                     in if loadMore
                        then updated_loop n rt srv api time ids (page + 1) found1 calls1 lg1
                        else (Some (Inr ()), calls1, lg1)))))"

definition filterUpdatedManga ::
  "nat \<Rightarrow> runtime \<Rightarrow> server \<Rightarrow> stateManager \<Rightarrow> real option \<Rightarrow> string list \<Rightarrow> request list \<Rightarrow>
     (error + unit) option \<times> jsval list list \<times> request list" where
  "filterUpdatedManga n rt srv sm time ids lg =
     updated_loop n rt srv (api_string (getKomgaAPI sm)) time ids 0 [] [] lg"

text \<open>
  An item is not older than the watermark when its time can be read and
  \<^verbatim>\<open>serieUpdated >= time\<close> holds of it.
\<close>

definition not_older :: "runtime \<Rightarrow> real option \<Rightarrow> jsval \<Rightarrow> bool" where
  "not_older rt time s = (case serieUpdated rt s of Inl e \<Rightarrow> False | Inr u \<Rightarrow> date_ge u time)"

section \<open>The progress form of one series\<close>

definition books_request :: "string \<Rightarrow> string \<Rightarrow> request" where
  "books_request api mid = createRequest (api @ ''/series/'' @ mid @ ''/books?unpaged=true'') [] ''GET''"

definition reset_request :: "string \<Rightarrow> string \<Rightarrow> request" where
  "reset_request api mid =
     \<lparr> url = api @ ''/series/'' @ mid @ ''/read-progress'', param = [], http_method = ''DELETE'',
       headers = Some [(''content-type'', JStr ''application/json'')], body = JUndefined \<rparr>"

definition read_request :: "string \<Rightarrow> string \<Rightarrow> request" where
  "read_request api bookId =
     \<lparr> url = api @ ''/books/'' @ bookId @ ''/read-progress'', param = [], http_method = ''PATCH'',
       headers = Some [(''content-type'', JStr ''application/json'')],
       body = JObj [(''page'', JNull), (''completed'', JBool True)] \<rparr>"

text \<open>The sort key of a book, \<^verbatim>\<open>book.metadata.numberSort\<close>.\<close>

definition numberSort :: "jsval \<Rightarrow> error + jsval" where
  "numberSort book = bind (get_prop book ''metadata'') (\<lambda>m. get_prop m ''numberSort'')"

text \<open>
  Whether a book is at or below a progress: \<^verbatim>\<open>book.metadata.numberSort <= progress\<close>,
  for a book whose sort key can be read.
\<close>

definition at_or_below :: "runtime \<Rightarrow> real \<Rightarrow> jsval \<Rightarrow> bool" where
  "at_or_below rt progress b =
     (case numberSort b of Inl e \<Rightarrow> False | Inr ns \<Rightarrow> js_le rt ns progress)"

text \<open>The loop over the books: one awaited PATCH for each book at or below the progress.\<close>

fun mark_books ::
  "runtime \<Rightarrow> server \<Rightarrow> string \<Rightarrow> real \<Rightarrow> jsval list \<Rightarrow> request list \<Rightarrow>
     (error + unit) \<times> request list" where
  "mark_books rt srv api progress [] lg = (Inr (), lg)"
| "mark_books rt srv api progress (book # rest) lg =
     (case numberSort book of
        Inl e \<Rightarrow> (Inl e, lg)
      | Inr ns \<Rightarrow>
          if js_le rt ns progress then
            (case schedule srv (read_request api (to_string rt (get_opt book ''id''))) lg of
               (Inl e, lg1) \<Rightarrow> (Inl e, lg1)
             | (Inr resp, lg1) \<Rightarrow> mark_books rt srv api progress rest lg1)
          else mark_books rt srv api progress rest lg)"

text \<open>
  The \<^verbatim>\<open>onSubmit\<close> handler of \<^verbatim>\<open>getMangaProgressManagementForm\<close>. The stepper
  of the form gives \<^verbatim>\<open>values['progress']\<close> as a number (\<open>None\<close> when it is absent);
  \<open>booksReadCount\<close> is the number the form stored in \<^verbatim>\<open>tempData\<close> when its sections
  were built (\<open>None\<close> when they were not). The URL is the one read when the form was
  created.
\<close>

definition onSubmit ::
  "runtime \<Rightarrow> server \<Rightarrow> string option \<Rightarrow> string \<Rightarrow> real option \<Rightarrow> real option \<Rightarrow> request list \<Rightarrow>
     (error + unit) \<times> request list" where
  "onSubmit rt srv kapi mid booksReadCount progress lg =
     (case progress of
        None \<Rightarrow> (Inr (), lg)
      | Some p \<Rightarrow>
          if Some p = booksReadCount then (Inr (), lg)
          else
            (let api = api_string kapi in
             case schedule srv (books_request api mid) lg of
               (Inl e, lg1) \<Rightarrow> (Inl e, lg1)
             | (Inr resp, lg1) \<Rightarrow>
                 (case normalize rt (data resp) of
                    Inl e \<Rightarrow> (Inl e, lg1)
                  | Inr result \<Rightarrow>
                      if is_nullish (get_opt result ''content'') then (Inr (), lg1)
                      else
                        (case schedule srv (reset_request api mid) lg1 of
                           (Inl e, lg2) \<Rightarrow> (Inl e, lg2)
                         | (Inr r2, lg2) \<Rightarrow>
                             (case iterate (get_opt result ''content'') of
                                Inl e \<Rightarrow> (Inl e, lg2)
                              | Inr books \<Rightarrow> mark_books rt srv api p books lg2)))))"

section \<open>The queue of chapter-read actions\<close>

record chapterReadAction =
  action_mangaId :: string
  sourceId :: string
  sourceChapterId :: string

text \<open>What the queue is told about an action.\<close>

datatype disposition = Discard | Retry

text \<open>
  The loop of \<^verbatim>\<open>processChapterReadActionQueue\<close>. The calls on the host's queue
  (\<^verbatim>\<open>discardChapterReadAction\<close>, \<^verbatim>\<open>retryChapterReadAction\<close>) are recorded in order;
  they are taken to succeed.
\<close>

fun process_actions ::
  "server \<Rightarrow> string \<Rightarrow> chapterReadAction list \<Rightarrow> request list \<Rightarrow>
     (chapterReadAction \<times> disposition) list \<times> request list" where
  "process_actions srv api [] lg = ([], lg)"
| "process_actions srv api (readAction # rest) lg =
     (if sourceId readAction \<noteq> ''Paperback'' then
        (case process_actions srv api rest lg of
           (ds, lg2) \<Rightarrow> ((readAction, Discard) # ds, lg2))
      else
        (case schedule srv (read_request api (sourceChapterId readAction)) lg of
           (out, lg1) \<Rightarrow>
             (case process_actions srv api rest lg1 of
                (ds, lg2) \<Rightarrow>
                  ((readAction,
                    (case out of
                       Inl e \<Rightarrow> Retry
                     | Inr resp \<Rightarrow> if status resp < 400 then Discard else Retry)) # ds,
                   lg2))))"

definition processChapterReadActionQueue ::
  "server \<Rightarrow> stateManager \<Rightarrow> chapterReadAction list \<Rightarrow> request list \<Rightarrow>
     (chapterReadAction \<times> disposition) list \<times> request list" where
  "processChapterReadActionQueue srv sm chapterReadActions lg =
     process_actions srv (api_string (getKomgaAPI sm)) chapterReadActions lg"

section \<open>Concrete inputs\<close>

text \<open>
  A configured state, two requests, and a few servers, on which the definitions above
  are evaluated below.
\<close>

definition sm0 :: stateManager where
  "sm0 = \<lparr> komgaAPI = Some ''http://komga/api/v1'', authorization = JStr ''Basic c3RvcmVk'',
           showOnDeck = False, showContinueReading = False \<rparr>"

definition plain_request :: request where
  "plain_request = createRequest ''http://komga/api/v1/libraries'' [] ''GET''"

definition authorized_request :: request where
  "authorized_request =
     \<lparr> url = ''http://komga/api/v1/libraries'', param = [], http_method = ''GET'',
       headers = Some [(''authorization'', JStr ''Basic Y2FsbGVy'')], body = JUndefined \<rparr>"

text \<open>A server that cannot be reached: every call is rejected.\<close>

definition srv_down :: server where
  "srv_down h r = Inl TransportError"

text \<open>
  A queue of four actions: one of another source, and three of this source whose
  writes the server answers with 204, with 404, and not at all.
\<close>

definition queue0 :: "chapterReadAction list" where
  "queue0 =
     [\<lparr> action_mangaId = ''m0'', sourceId = ''MangaDex'', sourceChapterId = ''c0'' \<rparr>,
      \<lparr> action_mangaId = ''S1'', sourceId = ''Paperback'', sourceChapterId = ''b1'' \<rparr>,
      \<lparr> action_mangaId = ''S1'', sourceId = ''Paperback'', sourceChapterId = ''b2'' \<rparr>,
      \<lparr> action_mangaId = ''S1'', sourceId = ''Paperback'', sourceChapterId = ''b3'' \<rparr>]"

definition srv_queue :: server where
  "srv_queue h r =
     (if url r = ''http://komga/api/v1/books/b1/read-progress''
      then Inr \<lparr> status = 204, data = JUndefined \<rparr>
      else if url r = ''http://komga/api/v1/books/b2/read-progress''
      then Inr \<lparr> status = 404, data = JUndefined \<rparr>
      else Inl TransportError)"

text \<open>
  A series of four books with sort keys 1 to 4. The server lists them, as a decoded
  structure, for the request of the books of a series, and answers every other request
  with 204 and no body.
\<close>

definition a_book :: "string \<Rightarrow> real \<Rightarrow> jsval" where
  "a_book i n = JObj [(''id'', JStr i), (''metadata'', JObj [(''numberSort'', JNum n)])]"

definition srv_books :: server where
  "srv_books h r =
     (if url r = ''http://komga/api/v1/series/S1/books?unpaged=true''
      then Inr \<lparr> status = 200,
                 data = JObj [(''content'',
                   JArr [a_book ''b1'' 1, a_book ''b2'' 2, a_book ''b3'' 3, a_book ''b4'' 4])] \<rparr>
      else Inr \<lparr> status = 204, data = JUndefined \<rparr>)"

text \<open>
  A server for the tag catalog: one genre, no tag (sent as an unparsed JSON text), the
  given collections, and one library.
\<close>

definition named :: "string \<Rightarrow> string \<Rightarrow> jsval" where
  "named i n = JObj [(''id'', JStr i), (''name'', JStr n)]"

definition srv_tags :: "jsval list \<Rightarrow> server" where
  "srv_tags cs h r =
     (if url r = ''http://komga/api/v1/genres''
      then Inr \<lparr> status = 200, data = JArr [JStr ''action''] \<rparr>
      else if url r = ''http://komga/api/v1/tags/series''
      then Inr \<lparr> status = 200, data = JStr ''[]'' \<rparr>
      else if url r = ''http://komga/api/v1/collections''
      then Inr \<lparr> status = 200, data = JObj [(''content'', JArr cs)] \<rparr>
      else if url r = ''http://komga/api/v1/libraries''
      then Inr \<lparr> status = 200, data = JArr [named ''L1'' ''manga''] \<rparr>
      else Inl TransportError)"

text \<open>
  A listing of two pages: page 0 holds two series, every later page is empty.
\<close>

definition a_serie :: "string \<Rightarrow> string \<Rightarrow> real \<Rightarrow> jsval" where
  "a_serie i t lm =
     JObj [(''id'', JStr i),
           (''metadata'', JObj [(''title'', JStr t), (''lastModified'', JNum lm)])]"

definition page_response :: "nat \<Rightarrow> response" where
  "page_response i =
     \<lparr> status = 200,
       data = JObj [(''content'',
         JArr (if i = 0 then [a_serie ''s1'' ''One'' 20, a_serie ''s2'' ''Two'' 10] else []))] \<rparr>"

definition srv_pages :: server where
  "srv_pages h r =
     (if param r = ''?page=0&size=40&deleted=false'' then Inr (page_response 0)
      else Inr (page_response 1))"

definition page_tiles :: "nat \<Rightarrow> partialSourceManga list" where
  "page_tiles i =
     (if i = 0
      then [\<lparr> title = JStr ''One'', image = ''http://komga/api/v1/series/s1/thumbnail'',
              mangaId = JStr ''s1'' \<rparr>,
            \<lparr> title = JStr ''Two'', image = ''http://komga/api/v1/series/s2/thumbnail'',
              mangaId = JStr ''s2'' \<rparr>]
      else [])"

section \<open>Normalization and pre-decoding\<close>

lemma json_parse_quoted:
  "json_parse [CHR 0x22, CHR ''a'', CHR ''b'', CHR ''c'', CHR 0x22] = Some (JStr ''abc'')"
  by code_simp

lemma json_parse_bare: "json_parse ''abc'' = None"
  by code_simp

lemma json_parse_array: "json_parse ''[true,null]'' = Some (JArr [JBool True, JNull])"
  by code_simp

text \<open>
  C8, as stated, fails. The body \<^verbatim>\<open>"abc"\<close> (five characters, the quotes included) is
  a valid JSON text; it decodes to the string \<^verbatim>\<open>abc\<close>. Normalizing the body gives
  that string, but normalizing the decoded value takes the string branch again and
  throws, since \<^verbatim>\<open>abc\<close> is not a JSON text.
\<close>

theorem normalize_decoded_string_counterexample:
  "JSON_parse rt0 [CHR 0x22, CHR ''a'', CHR ''b'', CHR ''c'', CHR 0x22] = Some (JStr ''abc'') \<and>
   normalize rt0 (JStr [CHR 0x22, CHR ''a'', CHR ''b'', CHR ''c'', CHR 0x22]) = Inr (JStr ''abc'') \<and>
   normalize rt0 (JStr ''abc'') = Inl SyntaxError"
  by (simp add: normalize_def rt0_def json_parse_quoted json_parse_bare)

text \<open>
  C8, amended: for every runtime and every string body that \<^verbatim>\<open>JSON.parse\<close> decodes
  to a value that is not itself a string, normalizing the body equals normalizing the
  decoded value; and a body that is not a string is returned unchanged, without a
  failure path.
\<close>

theorem normalize_decoded:
  "(JSON_parse rt s = Some v \<and> \<not> is_string v \<longrightarrow> normalize rt (JStr s) = normalize rt v) \<and>
   (\<not> is_string d \<longrightarrow> normalize rt d = Inr d)"
  by (cases v; cases d) (simp_all add: normalize_def)

theorem normalize_decoded_witness:
  "JSON_parse rt0 ''[true,null]'' = Some (JArr [JBool True, JNull]) \<and>
   \<not> is_string (JArr [JBool True, JNull]) \<and>
   normalize rt0 (JStr ''[true,null]'') = normalize rt0 (JArr [JBool True, JNull]) \<and>
   \<not> is_string (JObj [(''content'', JArr [])]) \<and>
   normalize rt0 (JObj [(''content'', JArr [])]) = Inr (JObj [(''content'', JArr [])])"
proof -
  have p: "JSON_parse rt0 ''[true,null]'' = Some (JArr [JBool True, JNull])"
    by (simp add: rt0_def json_parse_array)
  show ?thesis
    using p normalize_decoded [of rt0 "''[true,null]''" "JArr [JBool True, JNull]"
        "JObj [(''content'', JArr [])]"]
    by simp
qed

section \<open>The progress form: the no-change guard\<close>

text \<open>
  C10: when the submitted progress is absent or equal to the \<^verbatim>\<open>booksReadCount\<close>
  stored when the form was built, the submit handler returns without scheduling any
  request: the log of requests is unchanged.
\<close>

theorem onSubmit_no_change:
  "progress = None \<or> progress = booksReadCount \<Longrightarrow>
   onSubmit rt srv kapi mid booksReadCount progress lg = (Inr (), lg)"
  by (auto simp: onSubmit_def split: option.splits)

theorem onSubmit_no_change_witness:
  "(Some 3 = (None :: real option) \<or> Some 3 = Some (3 :: real)) \<and>
   onSubmit rt0 (\<lambda>h r. Inl TransportError) (Some ''http://komga/api/v1'') ''S1'' (Some 3) (Some 3) []
     = (Inr (), [])"
  using onSubmit_no_change [of "Some 3" "Some 3" rt0 "\<lambda>h r. Inl TransportError"
      "Some ''http://komga/api/v1''" "''S1''" "[]"]
  by simp

section \<open>The authorization header\<close>

lemma header_Nil: "header [] k = JUndefined"
  by (simp add: header_def)

lemma header_Cons: "header ((k, v) # hs) k' = (if k' = k then v else header hs k')"
  by (simp add: header_def)

lemma header_update: "header (AList.update k v hs) k' = (if k' = k then v else header hs k')"
  by (simp add: header_def update_conv')

lemma header_assign_one: "header (assign hs [(k, v)]) k' = (if k' = k then v else header hs k')"
  by (simp add: assign_def header_update)

lemma interceptRequest_absent:
  assumes "is_nullish (auth_header r)" and "getAuthorizationString sm = Inr a"
  shows "\<exists>r'. interceptRequest sm r = Inr r' \<and> auth_header r' = a \<and>
           (\<forall>k. k \<noteq> ''authorization'' \<longrightarrow> request_header r' k = request_header r k)"
  using assms
  by (cases "headers r")
     (auto simp: interceptRequest_def auth_header_def request_header_def header_update
        header_Nil header_Cons)

lemma interceptRequest_present:
  assumes "\<not> is_nullish (auth_header r)"
  shows "interceptRequest sm r = Inr r"
  using assms
  by (cases "headers r") (auto simp: interceptRequest_def auth_header_def request_header_def)

lemma tracker_interceptRequest_always:
  assumes "\<not> is_nullish (authorization sm)"
  shows "\<exists>r'. tracker_interceptRequest sm r = Inr r' \<and> auth_header r' = authorization sm"
  using assms
  by (auto simp: tracker_interceptRequest_def tracker_getAuthorizationString_def auth_header_def
        request_header_def header_assign_one)

text \<open>
  C3, as stated, fails for the interceptor of the bundled tracker. A request that
  already carries an authorization header leaves that interceptor with the stored
  credentials in its place: the merge puts the stored authorization last, so it wins.
\<close>

theorem tracker_interceptRequest_counterexample:
  "auth_header authorized_request = JStr ''Basic Y2FsbGVy'' \<and>
   tracker_interceptRequest sm0 authorized_request =
     Inr (authorized_request\<lparr> headers := Some
            [(''authorization'', JStr ''Basic c3RvcmVk''),
             (''content-type'', JStr ''application/json''),
             (''accept'', JStr ''application/json'')] \<rparr>)"
  by (simp add: tracker_interceptRequest_def tracker_getAuthorizationString_def sm0_def
        authorized_request_def auth_header_def request_header_def header_def assign_def)

text \<open>
  C3, amended. The interceptor of the source plugin sets the authorization header to
  the stored credentials when the request defines none, keeping every other header,
  and returns a request that already defines one unchanged. The interceptor of the
  bundled tracker sets the authorization header to the stored credentials on every
  request, whatever the request carried.
\<close>

theorem interceptors_authorization:
  "(is_nullish (auth_header r1) \<and> getAuthorizationString sm = Inr a \<longrightarrow>
      (\<exists>r'. interceptRequest sm r1 = Inr r' \<and> auth_header r' = a \<and>
         (\<forall>k. k \<noteq> ''authorization'' \<longrightarrow> request_header r' k = request_header r1 k))) \<and>
   (\<not> is_nullish (auth_header r2) \<longrightarrow> interceptRequest sm r2 = Inr r2) \<and>
   (\<not> is_nullish (authorization sm) \<longrightarrow>
      (\<exists>r'. tracker_interceptRequest sm r3 = Inr r' \<and> auth_header r' = authorization sm))"
  using interceptRequest_absent interceptRequest_present tracker_interceptRequest_always
  by blast

theorem interceptors_authorization_witness:
  "is_nullish (auth_header plain_request) \<and>
   getAuthorizationString sm0 = Inr (JStr ''Basic c3RvcmVk'') \<and>
   (\<exists>r'. interceptRequest sm0 plain_request = Inr r' \<and>
      auth_header r' = JStr ''Basic c3RvcmVk'' \<and>
      (\<forall>k. k \<noteq> ''authorization'' \<longrightarrow> request_header r' k = request_header plain_request k)) \<and>
   \<not> is_nullish (auth_header authorized_request) \<and>
   interceptRequest sm0 authorized_request = Inr authorized_request \<and>
   \<not> is_nullish (authorization sm0) \<and>
   (\<exists>r'. tracker_interceptRequest sm0 plain_request = Inr r' \<and>
      auth_header r' = authorization sm0)"
proof -
  have h1: "is_nullish (auth_header plain_request)"
    by (simp add: plain_request_def createRequest_def auth_header_def request_header_def)
  have h2: "getAuthorizationString sm0 = Inr (JStr ''Basic c3RvcmVk'')"
    by (simp add: getAuthorizationString_def sm0_def)
  have h3: "\<not> is_nullish (auth_header authorized_request)"
    by (simp add: authorized_request_def auth_header_def request_header_def header_Cons)
  have h4: "\<not> is_nullish (authorization sm0)"
    by (simp add: sm0_def)
  show ?thesis
    using h1 h2 h3 h4
      interceptors_authorization [of plain_request sm0 "JStr ''Basic c3RvcmVk''"
        authorized_request plain_request]
    by simp
qed

section \<open>The queue of chapter-read actions: one disposition each\<close>

lemma process_actions_spec:
  "process_actions srv api actions lg = (ds, lg') \<Longrightarrow>
   map fst ds = actions \<and>
   lg' = lg @ map (\<lambda>a. read_request api (sourceChapterId a))
                (filter (\<lambda>a. sourceId a = ''Paperback'') actions) \<and>
   (\<forall>i<length actions.
      snd (ds ! i) =
        (if sourceId (actions ! i) \<noteq> ''Paperback'' then Discard
         else case srv (lg @ map (\<lambda>a. read_request api (sourceChapterId a))
                         (filter (\<lambda>a. sourceId a = ''Paperback'') (take i actions)))
                    (read_request api (sourceChapterId (actions ! i))) of
                Inl e \<Rightarrow> Retry
              | Inr resp \<Rightarrow> if status resp < 400 then Discard else Retry))"
proof (induction actions arbitrary: lg ds lg')
  case Nil
  then show ?case by simp
next
  case (Cons a rest)
  show ?case
  proof (cases "sourceId a = ''Paperback''")
    case False
    obtain ds1 lg2 where r: "process_actions srv api rest lg = (ds1, lg2)"
      by (cases "process_actions srv api rest lg")
    with Cons.prems False have ds: "ds = (a, Discard) # ds1" and lg: "lg' = lg2"
      by simp_all
    from Cons.IH [OF r] show ?thesis using False ds lg
      by (auto simp: nth_Cons split: nat.splits)
  next
    case True
    obtain ds1 lg2 where
      r: "process_actions srv api rest (lg @ [read_request api (sourceChapterId a)]) = (ds1, lg2)"
      by (cases "process_actions srv api rest (lg @ [read_request api (sourceChapterId a)])")
    with Cons.prems True have
      ds: "ds = (a, case srv lg (read_request api (sourceChapterId a)) of
                      Inl e \<Rightarrow> Retry
                    | Inr resp \<Rightarrow> if status resp < 400 then Discard else Retry) # ds1"
      and lg: "lg' = lg2"
      by (simp_all add: schedule_def)
    from Cons.IH [OF r] show ?thesis using True ds lg
      by (auto simp: nth_Cons split: nat.splits)
  qed
qed

text \<open>
  C9: every action of the queue receives exactly one disposition, in the order of the
  queue. An action whose source is not this one is discarded and no request is made
  for it: the requests made are one PATCH for each action of this source, in order. An
  action of this source is discarded when the answer to its PATCH has a status below
  400, and marked for retry when the status is 400 or more or the request is rejected.
\<close>

theorem queue_dispositions:
  assumes "processChapterReadActionQueue srv sm actions lg = (ds, lg')"
  shows "map fst ds = actions \<and>
   lg' = lg @ map (\<lambda>a. read_request (api_string (getKomgaAPI sm)) (sourceChapterId a))
                (filter (\<lambda>a. sourceId a = ''Paperback'') actions) \<and>
   (\<forall>i<length actions.
      snd (ds ! i) =
        (if sourceId (actions ! i) \<noteq> ''Paperback'' then Discard
         else case srv (lg @ map (\<lambda>a. read_request (api_string (getKomgaAPI sm)) (sourceChapterId a))
                         (filter (\<lambda>a. sourceId a = ''Paperback'') (take i actions)))
                    (read_request (api_string (getKomgaAPI sm)) (sourceChapterId (actions ! i))) of
                Inl e \<Rightarrow> Retry
              | Inr resp \<Rightarrow> if status resp < 400 then Discard else Retry))"
  using assms unfolding processChapterReadActionQueue_def
  by (rule process_actions_spec)

theorem queue_dispositions_witness:
  "processChapterReadActionQueue srv_queue sm0 queue0 [] =
     ([(queue0 ! 0, Discard), (queue0 ! 1, Discard), (queue0 ! 2, Retry), (queue0 ! 3, Retry)],
      [read_request ''http://komga/api/v1'' ''b1'', read_request ''http://komga/api/v1'' ''b2'',
       read_request ''http://komga/api/v1'' ''b3'']) \<and>
   map fst [(queue0 ! 0, Discard), (queue0 ! 1, Discard), (queue0 ! 2, Retry), (queue0 ! 3, Retry)]
     = queue0"
proof -
  have e: "processChapterReadActionQueue srv_queue sm0 queue0 [] =
     ([(queue0 ! 0, Discard), (queue0 ! 1, Discard), (queue0 ! 2, Retry), (queue0 ! 3, Retry)],
      [read_request ''http://komga/api/v1'' ''b1'', read_request ''http://komga/api/v1'' ''b2'',
       read_request ''http://komga/api/v1'' ''b3''])"
    by (simp add: processChapterReadActionQueue_def queue0_def srv_queue_def sm0_def
          getKomgaAPI_def api_string_def schedule_def read_request_def)
  from queue_dispositions [OF e] have "map fst [(queue0 ! 0, Discard), (queue0 ! 1, Discard),
      (queue0 ! 2, Retry), (queue0 ! 3, Retry)] = queue0"
    by (rule conjunct1)
  with e show ?thesis by simp
qed

section \<open>The progress form: the requests of a submission\<close>

lemma mark_books_log:
  "mark_books rt srv api p books lg = (Inr (), lg') \<Longrightarrow>
   lg' = lg @ map (\<lambda>b. read_request api (to_string rt (get_opt b ''id'')))
                (filter (at_or_below rt p) books)"
proof (induction books arbitrary: lg)
  case Nil
  then show ?case by simp
next
  case (Cons b rest)
  show ?case
  proof (cases "numberSort b")
    case (Inl e)
    with Cons.prems show ?thesis by simp
  next
    case (Inr ns)
    show ?thesis
    proof (cases "js_le rt ns p")
      case False
      with Inr Cons.prems have "mark_books rt srv api p rest lg = (Inr (), lg')" by simp
      from Cons.IH [OF this] show ?thesis using Inr False by (simp add: at_or_below_def)
    next
      case True
      let ?q = "read_request api (to_string rt (get_opt b ''id''))"
      from Inr True Cons.prems have "mark_books rt srv api p rest (lg @ [?q]) = (Inr (), lg')"
        by (simp add: schedule_def split: sum.splits)
      from Cons.IH [OF this] show ?thesis using Inr True by (simp add: at_or_below_def)
    qed
  qed
qed

lemma srv_books_list:
  "srv_books [] (books_request (api_string (Some ''http://komga/api/v1'')) ''S1'') =
     Inr \<lparr> status = 200,
           data = JObj [(''content'',
             JArr [a_book ''b1'' 1, a_book ''b2'' 2, a_book ''b3'' 3, a_book ''b4'' 4])] \<rparr>"
  by (simp add: srv_books_def books_request_def createRequest_def api_string_def)

lemma onSubmit_books_eval:
  "onSubmit rt0 srv_books (Some ''http://komga/api/v1'') ''S1'' (Some 0) (Some 2) [] =
     (Inr (), [books_request ''http://komga/api/v1'' ''S1'',
               reset_request ''http://komga/api/v1'' ''S1'',
               read_request ''http://komga/api/v1'' ''b1'',
               read_request ''http://komga/api/v1'' ''b2''])"
  by (simp add: onSubmit_def api_string_def schedule_def srv_books_def books_request_def
     createRequest_def normalize_def get_opt_def get_prop_def iterate_def a_book_def numberSort_def
     bind_def js_le_def to_number_def to_string_def reset_request_def read_request_def)

text \<open>
  C1, as stated, fails. With the sort keys 1, 2, 3, 4 and the target 2 (and a stored
  count of 0), the handler lists the books, then issues
  \<^verbatim>\<open>DELETE /series/S1/read-progress\<close>, and only then the two PATCH requests. The
  DELETE is a mutation that is not a mark-read of a book at or below the target: it
  resets the read progress of the whole series, the books with sort keys 3 and 4
  included.
\<close>

theorem onSubmit_reset_counterexample:
  "onSubmit rt0 srv_books (Some ''http://komga/api/v1'') ''S1'' (Some 0) (Some 2) [] =
     (Inr (), [books_request ''http://komga/api/v1'' ''S1'',
               reset_request ''http://komga/api/v1'' ''S1'',
               read_request ''http://komga/api/v1'' ''b1'',
               read_request ''http://komga/api/v1'' ''b2'']) \<and>
   reset_request ''http://komga/api/v1'' ''S1'' =
     \<lparr> url = ''http://komga/api/v1/series/S1/read-progress'', param = [],
       http_method = ''DELETE'',
       headers = Some [(''content-type'', JStr ''application/json'')], body = JUndefined \<rparr>"
  by (simp add: onSubmit_books_eval) (simp add: reset_request_def)

text \<open>
  C1, amended. In a submission that changes the progress, finds the list of the books
  and returns without an error, the requests are, in this order: the request of the
  list, one \<^verbatim>\<open>DELETE\<close> of the read progress of the whole series, and one mark-read
  PATCH for each book whose sort key is at or below the target, in the order of the
  list. No request is addressed to a book whose sort key is above the target.
\<close>

theorem onSubmit_requests:
  assumes "progress = Some p" and "booksReadCount \<noteq> Some p"
    and "srv lg (books_request (api_string kapi) mid) = Inr resp"
    and "normalize rt (data resp) = Inr result"
    and "iterate (get_opt result ''content'') = Inr books"
    and "onSubmit rt srv kapi mid booksReadCount progress lg = (Inr (), lg')"
  shows "lg' = lg @ [books_request (api_string kapi) mid, reset_request (api_string kapi) mid]
               @ map (\<lambda>b. read_request (api_string kapi) (to_string rt (get_opt b ''id'')))
                   (filter (at_or_below rt p) books)"
proof -
  have nn: "\<not> is_nullish (get_opt result ''content'')"
    using assms(5) by (cases "get_opt result ''content''") (simp_all add: iterate_def)
  let ?lg2 = "lg @ [books_request (api_string kapi) mid, reset_request (api_string kapi) mid]"
  have "mark_books rt srv (api_string kapi) p books ?lg2 = (Inr (), lg')"
    using assms nn by (auto simp: onSubmit_def schedule_def Let_def split: sum.splits)
  from mark_books_log [OF this] show ?thesis by simp
qed

theorem onSubmit_requests_witness:
  "(Some 0 :: real option) \<noteq> Some 2 \<and>
   normalize rt0 (JObj [(''content'',
       JArr [a_book ''b1'' 1, a_book ''b2'' 2, a_book ''b3'' 3, a_book ''b4'' 4])]) =
     Inr (JObj [(''content'',
       JArr [a_book ''b1'' 1, a_book ''b2'' 2, a_book ''b3'' 3, a_book ''b4'' 4])]) \<and>
   iterate (get_opt (JObj [(''content'',
       JArr [a_book ''b1'' 1, a_book ''b2'' 2, a_book ''b3'' 3, a_book ''b4'' 4])]) ''content'') =
     Inr [a_book ''b1'' 1, a_book ''b2'' 2, a_book ''b3'' 3, a_book ''b4'' 4] \<and>
   [books_request ''http://komga/api/v1'' ''S1'', reset_request ''http://komga/api/v1'' ''S1'',
    read_request ''http://komga/api/v1'' ''b1'', read_request ''http://komga/api/v1'' ''b2''] =
   [] @ [books_request (api_string (Some ''http://komga/api/v1'')) ''S1'',
         reset_request (api_string (Some ''http://komga/api/v1'')) ''S1'']
      @ map (\<lambda>b. read_request (api_string (Some ''http://komga/api/v1''))
                   (to_string rt0 (get_opt b ''id'')))
          (filter (at_or_below rt0 2)
             [a_book ''b1'' 1, a_book ''b2'' 2, a_book ''b3'' 3, a_book ''b4'' 4])"
proof -
  let ?books = "[a_book ''b1'' 1, a_book ''b2'' 2, a_book ''b3'' 3, a_book ''b4'' 4]"
  have h2: "(Some 0 :: real option) \<noteq> Some 2" by simp
  have h4: "normalize rt0 (data \<lparr> status = 200, data = JObj [(''content'', JArr ?books)] \<rparr>) =
      Inr (JObj [(''content'', JArr ?books)])"
    by (simp add: normalize_def)
  have h5: "iterate (get_opt (JObj [(''content'', JArr ?books)]) ''content'') = Inr ?books"
    by (simp add: iterate_def get_opt_def get_prop_def)
  note c = onSubmit_requests [OF refl h2 srv_books_list h4 h5 onSubmit_books_eval]
  show ?thesis using h2 h4 h5 c by simp
qed

section \<open>The tag catalog: the collections section\<close>

lemma bind_Inr_iff: "(bind m f = Inr y) = (\<exists>x. m = Inr x \<and> f x = Inr y)"
  by (cases m) (simp_all add: bind_def)

lemma as_array_Inr_iff: "(as_array v = Inr xs) = (v = JArr xs)"
  by (cases v) (auto simp: as_array_def)

lemma map_throw_map:
  assumes "\<And>x y. f x = Inr y \<Longrightarrow> g y = h x"
  shows "map_throw f xs = Inr ys \<Longrightarrow> map g ys = map h xs"
proof (induction xs arbitrary: ys)
  case Nil
  then show ?case by simp
next
  case (Cons x xs)
  then show ?case
    by (auto split: sum.splits simp: assms)
qed

lemma object_tag_id:
  "object_tag rt prefix e = Inr t \<Longrightarrow> tag_id t = prefix @ to_string rt (get_opt e ''id'')"
  by (auto simp: object_tag_def bind_Inr_iff get_opt_def)

lemma tagSections_collections:
  assumes "tagSections rt gd td cd ld = Inr secs"
  shows "\<exists>cr cs. normalize rt cd = Inr cr \<and> get_prop cr ''content'' = Inr (JArr cs) \<and>
     (length cs \<le> 1 \<longrightarrow> map section_id secs = [''0'', ''1'', ''3'']) \<and>
     (2 \<le> length cs \<longrightarrow>
        map section_id secs = [''0'', ''1'', ''2'', ''3''] \<and>
        section_label (secs ! 2) = ''collections'' \<and>
        map tag_id (tags (secs ! 2)) =
          map (\<lambda>c. ''collection-'' @ to_string rt (get_opt c ''id'')) cs)"
proof -
  from assms obtain cr content cs t0 t1 t2 t3 where
    n: "normalize rt cd = Inr cr" and c: "get_prop cr ''content'' = Inr content"
    and a: "as_array content = Inr cs"
    and m: "map_throw (object_tag rt ''collection-'') cs = Inr t2"
    and s: "secs =
      (if length cs \<le> 1
       then [\<lparr> section_id = ''0'', section_label = ''genres'', tags = t0 \<rparr>,
             \<lparr> section_id = ''1'', section_label = ''tags'', tags = t1 \<rparr>,
             \<lparr> section_id = ''3'', section_label = ''libraries'', tags = t3 \<rparr>]
       else [\<lparr> section_id = ''0'', section_label = ''genres'', tags = t0 \<rparr>,
             \<lparr> section_id = ''1'', section_label = ''tags'', tags = t1 \<rparr>,
             \<lparr> section_id = ''2'', section_label = ''collections'', tags = t2 \<rparr>,
             \<lparr> section_id = ''3'', section_label = ''libraries'', tags = t3 \<rparr>])"
    unfolding tagSections_def bind_Inr_iff Let_def by auto
  from a have content: "content = JArr cs" by (simp add: as_array_Inr_iff)
  have ids: "map tag_id t2 = map (\<lambda>c. ''collection-'' @ to_string rt (get_opt c ''id'')) cs"
    using m by (rule map_throw_map [rotated]) (rule object_tag_id)
  show ?thesis
    using n c content s ids by auto
qed

lemma json_parse_empty_array: "json_parse ''[]'' = Some (JArr [])"
  by code_simp

lemma toUpperCase_eval:
  "toUpperCase CHR ''a'' = CHR ''A''" "toUpperCase CHR ''m'' = CHR ''M''"
  "toUpperCase CHR ''o'' = CHR ''O''" "toUpperCase CHR ''t'' = CHR ''T''"
  by code_simp+

lemma getTags_eval:
  "getTags rt0 (srv_tags cs) sm0 [] =
     (tagSections rt0 (JArr [JStr ''action'']) (JStr ''[]'') (JObj [(''content'', JArr cs)])
        (JArr [named ''L1'' ''manga'']),
      [createRequest ''http://komga/api/v1/genres'' [] ''GET'',
       createRequest ''http://komga/api/v1/tags/series'' [] ''GET'',
       createRequest ''http://komga/api/v1/collections'' [] ''GET'',
       createRequest ''http://komga/api/v1/libraries'' [] ''GET''])"
  by (simp add: getTags_def sm0_def getKomgaAPI_def api_string_def schedule_def srv_tags_def
        createRequest_def)

lemma tagSections_eval_one:
  "tagSections rt0 (JArr [JStr ''action'']) (JStr ''[]'')
       (JObj [(''content'', JArr [named ''C1'' ''one''])]) (JArr [named ''L1'' ''manga'']) =
     Inr [\<lparr> section_id = ''0'', section_label = ''genres'',
             tags = [\<lparr> tag_id = ''genre-action'', tag_label = ''Action'' \<rparr>] \<rparr>,
          \<lparr> section_id = ''1'', section_label = ''tags'', tags = [] \<rparr>,
          \<lparr> section_id = ''3'', section_label = ''libraries'',
             tags = [\<lparr> tag_id = ''library-L1'', tag_label = ''Manga'' \<rparr>] \<rparr>]"
  by (simp add: tagSections_def normalize_def rt0_def json_parse_empty_array bind_def
        as_array_def string_tag_def object_tag_def capitalize_def toUpperCase_eval to_string_def
        get_prop_def named_def)

lemma tagSections_eval_two:
  "tagSections rt0 (JArr [JStr ''action'']) (JStr ''[]'')
       (JObj [(''content'', JArr [named ''C1'' ''one'', named ''C2'' ''two''])])
       (JArr [named ''L1'' ''manga'']) =
     Inr [\<lparr> section_id = ''0'', section_label = ''genres'',
             tags = [\<lparr> tag_id = ''genre-action'', tag_label = ''Action'' \<rparr>] \<rparr>,
          \<lparr> section_id = ''1'', section_label = ''tags'', tags = [] \<rparr>,
          \<lparr> section_id = ''2'', section_label = ''collections'',
             tags = [\<lparr> tag_id = ''collection-C1'', tag_label = ''One'' \<rparr>,
                     \<lparr> tag_id = ''collection-C2'', tag_label = ''Two'' \<rparr>] \<rparr>,
          \<lparr> section_id = ''3'', section_label = ''libraries'',
             tags = [\<lparr> tag_id = ''library-L1'', tag_label = ''Manga'' \<rparr>] \<rparr>]"
  by (simp add: tagSections_def normalize_def rt0_def json_parse_empty_array bind_def
        as_array_def string_tag_def object_tag_def capitalize_def toUpperCase_eval to_string_def
        get_prop_def named_def)

text \<open>
  C7: whenever \<^verbatim>\<open>getTags\<close> returns sections other than the placeholder, the server
  answered the request of the collections with a body whose \<^verbatim>\<open>content\<close> is an
  array; with at most one collection in it the sections returned are 0, 1 and 3, the
  collections section being left out; with two or more they are 0, 1, 2 and 3, and
  section 2 is the collections section, with one tag for each collection, in order.
\<close>

theorem getTags_collections:
  assumes "getTags rt srv sm lg = (Inr secs, lg')" and "secs \<noteq> [server_unavailable]"
  shows "\<exists>cresp cr cs.
     srv (lg @ [createRequest (api_string (getKomgaAPI sm) @ ''/genres'') [] ''GET'',
                createRequest (api_string (getKomgaAPI sm) @ ''/tags/series'') [] ''GET''])
         (createRequest (api_string (getKomgaAPI sm) @ ''/collections'') [] ''GET'') = Inr cresp \<and>
     normalize rt (data cresp) = Inr cr \<and> get_prop cr ''content'' = Inr (JArr cs) \<and>
     (length cs \<le> 1 \<longrightarrow> map section_id secs = [''0'', ''1'', ''3'']) \<and>
     (2 \<le> length cs \<longrightarrow>
        map section_id secs = [''0'', ''1'', ''2'', ''3''] \<and>
        section_label (secs ! 2) = ''collections'' \<and>
        map tag_id (tags (secs ! 2)) =
          map (\<lambda>c. ''collection-'' @ to_string rt (get_opt c ''id'')) cs)"
proof -
  let ?api = "api_string (getKomgaAPI sm)"
  let ?g = "createRequest (?api @ ''/genres'') [] ''GET''"
  let ?t = "createRequest (?api @ ''/tags/series'') [] ''GET''"
  let ?c = "createRequest (?api @ ''/collections'') [] ''GET''"
  from assms have "\<exists>gd td cresp ld. srv (lg @ [?g, ?t]) ?c = Inr cresp \<and>
      tagSections rt gd td (data cresp) ld = Inr secs"
    by (auto simp: getTags_def schedule_def Let_def split: sum.splits)
  then obtain gd td cresp ld where
    c: "srv (lg @ [?g, ?t]) ?c = Inr cresp"
    and ts: "tagSections rt gd td (data cresp) ld = Inr secs"
    by blast
  show ?thesis
    by (rule exI [of _ cresp]) (use tagSections_collections [OF ts] c in simp)
qed

theorem getTags_collections_witness:
  "getTags rt0 (srv_tags [named ''C1'' ''one'']) sm0 [] =
     (Inr [\<lparr> section_id = ''0'', section_label = ''genres'',
             tags = [\<lparr> tag_id = ''genre-action'', tag_label = ''Action'' \<rparr>] \<rparr>,
           \<lparr> section_id = ''1'', section_label = ''tags'', tags = [] \<rparr>,
           \<lparr> section_id = ''3'', section_label = ''libraries'',
             tags = [\<lparr> tag_id = ''library-L1'', tag_label = ''Manga'' \<rparr>] \<rparr>],
      [createRequest ''http://komga/api/v1/genres'' [] ''GET'',
       createRequest ''http://komga/api/v1/tags/series'' [] ''GET'',
       createRequest ''http://komga/api/v1/collections'' [] ''GET'',
       createRequest ''http://komga/api/v1/libraries'' [] ''GET'']) \<and>
   length [named ''C1'' ''one''] \<le> 1 \<and>
   getTags rt0 (srv_tags [named ''C1'' ''one'', named ''C2'' ''two'']) sm0 [] =
     (Inr [\<lparr> section_id = ''0'', section_label = ''genres'',
             tags = [\<lparr> tag_id = ''genre-action'', tag_label = ''Action'' \<rparr>] \<rparr>,
           \<lparr> section_id = ''1'', section_label = ''tags'', tags = [] \<rparr>,
           \<lparr> section_id = ''2'', section_label = ''collections'',
             tags = [\<lparr> tag_id = ''collection-C1'', tag_label = ''One'' \<rparr>,
                     \<lparr> tag_id = ''collection-C2'', tag_label = ''Two'' \<rparr>] \<rparr>,
           \<lparr> section_id = ''3'', section_label = ''libraries'',
             tags = [\<lparr> tag_id = ''library-L1'', tag_label = ''Manga'' \<rparr>] \<rparr>],
      [createRequest ''http://komga/api/v1/genres'' [] ''GET'',
       createRequest ''http://komga/api/v1/tags/series'' [] ''GET'',
       createRequest ''http://komga/api/v1/collections'' [] ''GET'',
       createRequest ''http://komga/api/v1/libraries'' [] ''GET'']) \<and>
   2 \<le> length [named ''C1'' ''one'', named ''C2'' ''two'']"
proof -
  let ?lg = "[createRequest ''http://komga/api/v1/genres'' [] ''GET'',
       createRequest ''http://komga/api/v1/tags/series'' [] ''GET'',
       createRequest ''http://komga/api/v1/collections'' [] ''GET'',
       createRequest ''http://komga/api/v1/libraries'' [] ''GET'']"
  let ?s1 = "[\<lparr> section_id = ''0'', section_label = ''genres'',
             tags = [\<lparr> tag_id = ''genre-action'', tag_label = ''Action'' \<rparr>] \<rparr>,
           \<lparr> section_id = ''1'', section_label = ''tags'', tags = [] \<rparr>,
           \<lparr> section_id = ''3'', section_label = ''libraries'',
             tags = [\<lparr> tag_id = ''library-L1'', tag_label = ''Manga'' \<rparr>] \<rparr>]"
  let ?s2 = "[\<lparr> section_id = ''0'', section_label = ''genres'',
             tags = [\<lparr> tag_id = ''genre-action'', tag_label = ''Action'' \<rparr>] \<rparr>,
           \<lparr> section_id = ''1'', section_label = ''tags'', tags = [] \<rparr>,
           \<lparr> section_id = ''2'', section_label = ''collections'',
             tags = [\<lparr> tag_id = ''collection-C1'', tag_label = ''One'' \<rparr>,
                     \<lparr> tag_id = ''collection-C2'', tag_label = ''Two'' \<rparr>] \<rparr>,
           \<lparr> section_id = ''3'', section_label = ''libraries'',
             tags = [\<lparr> tag_id = ''library-L1'', tag_label = ''Manga'' \<rparr>] \<rparr>]"
  have e1: "getTags rt0 (srv_tags [named ''C1'' ''one'']) sm0 [] = (Inr ?s1, ?lg)"
    by (simp only: getTags_eval tagSections_eval_one)
  have e2: "getTags rt0 (srv_tags [named ''C1'' ''one'', named ''C2'' ''two'']) sm0 [] =
      (Inr ?s2, ?lg)"
    by (simp only: getTags_eval tagSections_eval_two)
  have n1: "?s1 \<noteq> [server_unavailable]" and n2: "?s2 \<noteq> [server_unavailable]"
    by simp_all
  note t1 = getTags_collections [OF e1 n1] and t2 = getTags_collections [OF e2 n2]
  show ?thesis
    using t1 t2 by (simp only: e1 e2) simp
qed

section \<open>Loading the next page: the cursor\<close>

lemma getViewMoreItems_step:
  "\<exists>out. getViewMoreItems rt srv sm sid md lg =
           (out, lg @ [viewMore_request (api_string (getKomgaAPI sm)) sid (page_of md)]) \<and>
     (\<forall>pr. out = Inr pr \<longrightarrow>
        (\<exists>resp. srv lg (viewMore_request (api_string (getKomgaAPI sm)) sid (page_of md)) = Inr resp \<and>
           tiles_of rt (api_string (getKomgaAPI sm) @ ''/series'') ''id'' (data resp) =
             Inr (results pr)) \<and>
        metadata pr = (if results pr = [] then None else Some (page_of md + 1)))"
  by (auto simp: getViewMoreItems_def schedule_def Let_def bind_def split: sum.splits)

lemma getViewMoreItems_served:
  assumes "srv lg (viewMore_request (api_string (getKomgaAPI sm)) sid (page_of md)) = Inr resp"
    and "tiles_of rt (api_string (getKomgaAPI sm) @ ''/series'') ''id'' (data resp) = Inr ts"
  shows "getViewMoreItems rt srv sm sid md lg =
     (Inr \<lparr> results = ts, metadata = (if ts = [] then None else Some (page_of md + 1)) \<rparr>,
      lg @ [viewMore_request (api_string (getKomgaAPI sm)) sid (page_of md)])"
  using assms
  by (simp add: getViewMoreItems_def schedule_def Let_def bind_def)

text \<open>
  A server that serves the pages 0 to \<open>k\<close>, the last one empty and the others not:
  the walk from page \<open>j\<close> asks for the pages \<open>j\<close> to \<open>k\<close> and stops.
\<close>

lemma walk_pages:
  assumes srv: "\<forall>i\<le>k. \<forall>h. srv h (viewMore_request (api_string (getKomgaAPI sm)) sid i) = Inr (resp i)"
    and tiles: "\<forall>i\<le>k. tiles_of rt (api_string (getKomgaAPI sm) @ ''/series'') ''id'' (data (resp i))
                  = Inr (ts i)"
    and nonempty: "\<forall>i<k. ts i \<noteq> []" and empty: "ts k = []"
  shows "j \<le> k \<Longrightarrow> k < j + n \<Longrightarrow> page_of md = j \<Longrightarrow>
     viewMore_walk n rt srv sm sid md lg =
       Some (Inr (concat (map ts [j..<Suc k])),
             lg @ map (viewMore_request (api_string (getKomgaAPI sm)) sid) [j..<Suc k])"
proof (induction n arbitrary: j md lg)
  case 0
  then show ?case by simp
next
  case (Suc n)
  let ?req = "viewMore_request (api_string (getKomgaAPI sm)) sid"
  from Suc.prems srv tiles have
    step: "getViewMoreItems rt srv sm sid md lg =
      (Inr \<lparr> results = ts j, metadata = (if ts j = [] then None else Some (j + 1)) \<rparr>,
       lg @ [?req j])"
    using getViewMoreItems_served [of srv lg sm sid md "resp j" rt "ts j"] by simp
  show ?case
  proof (cases "j = k")
    case True
    with step empty show ?thesis by simp
  next
    case False
    with Suc.prems have lt: "j < k" by simp
    with nonempty have ne: "ts j \<noteq> []" by simp
    from lt Suc.prems have
      ih: "viewMore_walk n rt srv sm sid (Some (j + 1)) (lg @ [?req j]) =
        Some (Inr (concat (map ts [Suc j..<Suc k])),
              (lg @ [?req j]) @ map ?req [Suc j..<Suc k])"
      using Suc.IH [of "Suc j" "Some (j + 1)" "lg @ [?req j]"] by (simp add: page_of_def)
    have up: "[j..<Suc k] = j # [Suc j..<Suc k]"
      using lt by (simp add: upt_conv_Cons)
    show ?thesis using step ne ih by (simp add: up del: upt_Suc)
  qed
qed

text \<open>
  C6. A call of \<^verbatim>\<open>getViewMoreItems\<close> makes exactly one request, at the page of the
  cursor. When it returns, its items are the tiles decoded from the answer, and its
  cursor is the next page if there is at least one item and no cursor if there is none.
  Hence a walk that follows the cursor over pages 0 to \<open>k\<close>, of which only the last is
  empty, returns the items of all the pages after exactly the requests for the pages 0
  to \<open>k\<close>: no page after the empty one is requested.
\<close>

theorem getViewMoreItems_cursor:
  "(\<exists>out. getViewMoreItems rt srv sm sid md lg =
           (out, lg @ [viewMore_request (api_string (getKomgaAPI sm)) sid (page_of md)]) \<and>
     (\<forall>pr. out = Inr pr \<longrightarrow>
        (\<exists>resp. srv lg (viewMore_request (api_string (getKomgaAPI sm)) sid (page_of md)) = Inr resp \<and>
           tiles_of rt (api_string (getKomgaAPI sm) @ ''/series'') ''id'' (data resp) =
             Inr (results pr)) \<and>
        metadata pr = (if results pr = [] then None else Some (page_of md + 1)))) \<and>
   ((\<forall>i\<le>k. \<forall>h. srv' h (viewMore_request (api_string (getKomgaAPI sm)) sid i) = Inr (resp i)) \<and>
    (\<forall>i\<le>k. tiles_of rt (api_string (getKomgaAPI sm) @ ''/series'') ''id'' (data (resp i))
        = Inr (ts i)) \<and>
    (\<forall>i<k. ts i \<noteq> []) \<and> ts k = [] \<and> k < n \<longrightarrow>
    viewMore_walk n rt srv' sm sid None lg =
      Some (Inr (concat (map ts [0..<Suc k])),
            lg @ map (viewMore_request (api_string (getKomgaAPI sm)) sid) [0..<Suc k]))"
proof (intro conjI impI)
  show "\<exists>out. getViewMoreItems rt srv sm sid md lg =
           (out, lg @ [viewMore_request (api_string (getKomgaAPI sm)) sid (page_of md)]) \<and>
     (\<forall>pr. out = Inr pr \<longrightarrow>
        (\<exists>resp. srv lg (viewMore_request (api_string (getKomgaAPI sm)) sid (page_of md)) = Inr resp \<and>
           tiles_of rt (api_string (getKomgaAPI sm) @ ''/series'') ''id'' (data resp) =
             Inr (results pr)) \<and>
        metadata pr = (if results pr = [] then None else Some (page_of md + 1)))"
    by (rule getViewMoreItems_step)
next
  assume h: "(\<forall>i\<le>k. \<forall>h. srv' h (viewMore_request (api_string (getKomgaAPI sm)) sid i) = Inr (resp i)) \<and>
    (\<forall>i\<le>k. tiles_of rt (api_string (getKomgaAPI sm) @ ''/series'') ''id'' (data (resp i))
        = Inr (ts i)) \<and>
    (\<forall>i<k. ts i \<noteq> []) \<and> ts k = [] \<and> k < n"
  then show "viewMore_walk n rt srv' sm sid None lg =
      Some (Inr (concat (map ts [0..<Suc k])),
            lg @ map (viewMore_request (api_string (getKomgaAPI sm)) sid) [0..<Suc k])"
    using walk_pages [of k srv' sm sid resp rt ts 0 n None lg] by (simp add: page_of_def)
qed

lemma show_nat_eval:
  "show_nat 0 = ''0''" "show_nat (Suc 0) = ''1''" "show_nat 1 = ''1''" "show_nat 40 = ''40''"
  by code_simp+

lemma viewMore_request_eval:
  "viewMore_request (api_string (getKomgaAPI sm0)) ''new'' 0 =
     createRequest ''http://komga/api/v1/series/new'' ''?page=0&size=40&deleted=false'' ''GET''"
  "viewMore_request (api_string (getKomgaAPI sm0)) ''new'' (Suc 0) =
     createRequest ''http://komga/api/v1/series/new'' ''?page=1&size=40&deleted=false'' ''GET''"
  by (simp_all add: viewMore_request_def api_string_def getKomgaAPI_def sm0_def show_nat_eval
        PAGE_SIZE_def)

lemma le_one_cases: "i \<le> (1::nat) \<Longrightarrow> i = 0 \<or> i = 1"
  by arith

lemma srv_pages_serves:
  "\<forall>i\<le>1. \<forall>h. srv_pages h (viewMore_request (api_string (getKomgaAPI sm0)) ''new'' i)
      = Inr (page_response i)"
proof (intro allI impI)
  fix i :: nat and h
  assume "i \<le> 1"
  then have "i = 0 \<or> i = 1" by (rule le_one_cases)
  then show "srv_pages h (viewMore_request (api_string (getKomgaAPI sm0)) ''new'' i)
      = Inr (page_response i)"
    by (auto simp: viewMore_request_eval srv_pages_def createRequest_def)
qed

lemma page_tiles_decoded:
  "\<forall>i\<le>1. tiles_of rt0 (api_string (getKomgaAPI sm0) @ ''/series'') ''id'' (data (page_response i))
      = Inr (page_tiles i)"
proof (intro allI impI)
  fix i :: nat
  assume "i \<le> 1"
  then have "i = 0 \<or> i = 1" by (rule le_one_cases)
  then show "tiles_of rt0 (api_string (getKomgaAPI sm0) @ ''/series'') ''id'' (data (page_response i))
      = Inr (page_tiles i)"
    by (auto simp: tiles_of_def page_response_def page_tiles_def normalize_def bind_def
          get_prop_def iterate_def tile_def a_serie_def to_string_def api_string_def
          getKomgaAPI_def sm0_def)
qed

theorem getViewMoreItems_cursor_witness:
  "getViewMoreItems rt0 srv_pages sm0 ''new'' None [] =
     (Inr \<lparr> results = page_tiles 0, metadata = Some 1 \<rparr>,
      [viewMore_request (api_string (getKomgaAPI sm0)) ''new'' 0]) \<and>
   getViewMoreItems rt0 srv_pages sm0 ''new'' (Some 1)
       [viewMore_request (api_string (getKomgaAPI sm0)) ''new'' 0] =
     (Inr \<lparr> results = [], metadata = None \<rparr>,
      [viewMore_request (api_string (getKomgaAPI sm0)) ''new'' 0,
       viewMore_request (api_string (getKomgaAPI sm0)) ''new'' 1]) \<and>
   page_tiles 0 \<noteq> [] \<and> page_tiles 1 = [] \<and> (1::nat) < 2 \<and>
   viewMore_walk 2 rt0 srv_pages sm0 ''new'' None [] =
     Some (Inr (page_tiles 0),
           [viewMore_request (api_string (getKomgaAPI sm0)) ''new'' 0,
            viewMore_request (api_string (getKomgaAPI sm0)) ''new'' 1])"
proof -
  let ?req = "viewMore_request (api_string (getKomgaAPI sm0)) ''new''"
  have s0: "srv_pages [] (?req (page_of None)) = Inr (page_response 0)"
    using srv_pages_serves by (simp add: page_of_def)
  have t0: "tiles_of rt0 (api_string (getKomgaAPI sm0) @ ''/series'') ''id'' (data (page_response 0))
      = Inr (page_tiles 0)"
    using page_tiles_decoded by simp
  have s1: "srv_pages [?req 0] (?req (page_of (Some 1))) = Inr (page_response 1)"
    using srv_pages_serves by (simp add: page_of_def)
  have t1: "tiles_of rt0 (api_string (getKomgaAPI sm0) @ ''/series'') ''id'' (data (page_response 1))
      = Inr (page_tiles 1)"
    using page_tiles_decoded by simp
  have ne: "\<forall>i<1. page_tiles i \<noteq> []" and e: "page_tiles 1 = []"
    by (simp_all add: page_tiles_def)
  have g0: "getViewMoreItems rt0 srv_pages sm0 ''new'' None [] =
     (Inr \<lparr> results = page_tiles 0, metadata = Some 1 \<rparr>, [?req 0])"
    using getViewMoreItems_served [of srv_pages "[]" sm0 "''new''" None "page_response 0" rt0
        "page_tiles 0"] s0 t0 ne
    by (simp add: page_of_def)
  have g1: "getViewMoreItems rt0 srv_pages sm0 ''new'' (Some 1) [?req 0] =
     (Inr \<lparr> results = [], metadata = None \<rparr>, [?req 0, ?req 1])"
    using getViewMoreItems_served [of srv_pages "[?req 0]" sm0 "''new''" "Some 1" "page_response 1"
        rt0 "page_tiles 1"] s1 t1 e
    by (simp add: page_of_def)
  have up: "[0..<Suc 1] = [0, 1]" by (simp add: upt_rec)
  note c = getViewMoreItems_cursor [of rt0 srv_pages sm0 "''new''" None "[]" 1 srv_pages
      page_response page_tiles 2, THEN conjunct2, rule_format]
  have w: "viewMore_walk 2 rt0 srv_pages sm0 ''new'' None [] =
     Some (Inr (page_tiles 0), [?req 0, ?req 1])"
    using c srv_pages_serves page_tiles_decoded ne e by (simp add: up)
  show ?thesis
    using g0 g1 ne e w by simp
qed

section \<open>The walk over the updated series: what is reported\<close>

lemma includes_not_updated: "array_includes ids serie \<Longrightarrow> serieUpdated rt serie = Inl TypeError"
  by (cases serie) (simp_all add: array_includes_def serieUpdated_def bind_def get_prop_def)

lemma scan_page_nothing:
  "scan_page rt time ids series found = (r, found') \<Longrightarrow> found' = found"
proof (induction series arbitrary: found)
  case Nil
  then show ?case by simp
next
  case (Cons serie rest)
  show ?case
  proof (cases "serieUpdated rt serie")
    case (Inl e)
    with Cons.prems show ?thesis by simp
  next
    case (Inr u)
    then have "\<not> array_includes ids serie"
      using includes_not_updated [of ids serie rt] by auto
    with Inr Cons.prems Cons.IH show ?thesis
      by (auto split: if_splits)
  qed
qed

lemma scan_page_not_older:
  "scan_page rt time ids series found = (r, found') \<Longrightarrow>
   \<forall>s\<in>set found. not_older rt time s \<Longrightarrow> \<forall>s\<in>set found'. not_older rt time s"
proof (induction series arbitrary: found)
  case Nil
  then show ?case by simp
next
  case (Cons serie rest)
  show ?case
  proof (cases "serieUpdated rt serie")
    case (Inl e)
    with Cons.prems show ?thesis by simp
  next
    case (Inr u)
    show ?thesis
    proof (cases "date_ge u time")
      case False
      with Inr Cons.prems show ?thesis by simp
    next
      case True
      let ?found = "if array_includes ids serie then found @ [serie] else found"
      from Inr True have "not_older rt time serie" by (simp add: not_older_def)
      with Cons.prems(2) have inv: "\<forall>s\<in>set ?found. not_older rt time s" by simp
      from Inr True Cons.prems(1) have "scan_page rt time ids rest ?found = (r, found')" by simp
      from Cons.IH [OF this inv] show ?thesis .
    qed
  qed
qed

lemma loadMore_conj: "(if b then False else g) = (\<not> b \<and> g)"
  by simp

lemma updated_loop_not_older:
  "updated_loop n rt srv api time ids page found calls lg = (r, calls', lg') \<Longrightarrow>
   \<forall>s\<in>set found. not_older rt time s \<Longrightarrow>
   \<forall>c\<in>set calls. \<forall>s\<in>set c. not_older rt time s \<Longrightarrow>
   \<forall>c\<in>set calls'. \<forall>s\<in>set c. not_older rt time s"
proof (induction n arbitrary: page found calls lg)
  case 0
  then show ?case by simp
next
  case (Suc n)
  note run = Suc.prems(1) and inv_found = Suc.prems(2) and inv_calls = Suc.prems(3)
  show ?case
  proof (cases "srv lg (updated_request api page)")
    case (Inl e)
    with run inv_calls show ?thesis by (auto simp: schedule_def)
  next
    case resp: (Inr resp)
    let ?lg1 = "lg @ [updated_request api page]"
    show ?thesis
    proof (cases "bind (normalize rt (data resp))
                    (\<lambda>result. bind (get_prop result ''content'') iterate)")
      case (Inl e)
      with resp run inv_calls show ?thesis by (auto simp: schedule_def)
    next
      case series: (Inr series)
      obtain out found1 where sc: "scan_page rt time ids series found = (out, found1)"
        by (cases "scan_page rt time ids series found")
      from scan_page_not_older [OF sc inv_found]
      have f1: "\<forall>s\<in>set found1. not_older rt time s" .
      show ?thesis
      proof (cases out)
        case (Inl e)
        with resp series sc run inv_calls show ?thesis by (auto simp: schedule_def)
      next
        case go: (Inr go)
        let ?calls1 = "if 0 < length found1 then calls @ [found1] else calls"
        have c1: "\<forall>c\<in>set ?calls1. \<forall>s\<in>set c. not_older rt time s"
          using f1 inv_calls by auto
        show ?thesis
        proof (cases "series \<noteq> [] \<and> go")
          case True
          then have "series \<noteq> []" and "go" by simp_all
          with resp series sc go run have
            "updated_loop n rt srv api time ids (page + 1) found1 ?calls1 ?lg1 = (r, calls', lg')"
            by (simp add: schedule_def Let_def loadMore_conj)
          from Suc.IH [OF this f1 c1] show ?thesis .
        next
          case False
          then have "series = [] \<or> \<not> go" by simp
          with resp series sc go run have "calls' = ?calls1"
            by (auto simp: schedule_def Let_def loadMore_conj)
          with c1 show ?thesis by simp
        qed
      qed
    qed
  qed
qed

text \<open>The callback is never called: nothing is ever pushed on \<^verbatim>\<open>foundIds\<close>.\<close>

lemma updated_loop_no_call:
  "updated_loop n rt srv api time ids page [] calls lg = (r, calls', lg') \<Longrightarrow> calls' = calls"
proof (induction n arbitrary: page calls lg)
  case 0
  then show ?case by simp
next
  case (Suc n)
  note run = Suc.prems
  show ?case
  proof (cases "srv lg (updated_request api page)")
    case (Inl e)
    with run show ?thesis by (auto simp: schedule_def)
  next
    case resp: (Inr resp)
    let ?lg1 = "lg @ [updated_request api page]"
    show ?thesis
    proof (cases "bind (normalize rt (data resp))
                    (\<lambda>result. bind (get_prop result ''content'') iterate)")
      case (Inl e)
      with resp run show ?thesis by (auto simp: schedule_def)
    next
      case series: (Inr series)
      obtain out found1 where sc: "scan_page rt time ids series [] = (out, found1)"
        by (cases "scan_page rt time ids series []")
      from scan_page_nothing [OF sc] have f1: "found1 = []" .
      show ?thesis
      proof (cases out)
        case (Inl e)
        with resp series sc run show ?thesis by (auto simp: schedule_def)
      next
        case go: (Inr go)
        show ?thesis
        proof (cases "series \<noteq> [] \<and> go")
          case True
          then have "series \<noteq> []" and "go" by simp_all
          with resp series sc go run f1 have
            "updated_loop n rt srv api time ids (page + 1) [] calls ?lg1 = (r, calls', lg')"
            by (simp add: schedule_def Let_def loadMore_conj)
          from Suc.IH [OF this] show ?thesis .
        next
          case False
          then have "series = [] \<or> \<not> go" by simp
          with resp series sc go run f1 show ?thesis
            by (auto simp: schedule_def Let_def loadMore_conj)
        qed
      qed
    qed
  qed
qed

text \<open>
  The walk ends at the first page that is empty or holds an item older than the
  watermark: the inner loop breaks at such an item, and the page is the last one asked.
\<close>

lemma scan_page_older:
  "\<forall>x\<in>set pre. not_older rt time x \<Longrightarrow> serieUpdated rt s = Inr u \<Longrightarrow> \<not> date_ge u time \<Longrightarrow>
   fst (scan_page rt time ids (pre @ s # rest) found) = Inr False"
proof (induction pre arbitrary: found)
  case Nil
  then show ?case by simp
next
  case (Cons x pre)
  from Cons.prems(1) obtain v where v: "serieUpdated rt x = Inr v" "date_ge v time"
    by (auto simp: not_older_def split: sum.splits)
  from Cons.prems(1) have pre: "\<forall>x\<in>set pre. not_older rt time x" by simp
  have "fst (scan_page rt time ids (pre @ s # rest) f) = Inr False" for f
    using Cons.IH [OF pre Cons.prems(2,3)] .
  with v show ?case by simp
qed

lemma updated_loop_stops:
  assumes "srv lg (updated_request api page) = Inr resp"
    and "bind (normalize rt (data resp)) (\<lambda>result. bind (get_prop result ''content'') iterate)
           = Inr series"
    and "scan_page rt time ids series found = (Inr go, found1)"
    and "series = [] \<or> \<not> go"
  shows "updated_loop (Suc n) rt srv api time ids page found calls lg =
     (Some (Inr ()), (if 0 < length found1 then calls @ [found1] else calls),
      lg @ [updated_request api page])"
  using assms by (auto simp: schedule_def Let_def loadMore_conj)

lemma filterUpdatedManga_eval:
  "filterUpdatedManga 3 rt0 srv_pages sm0 (Some 5) [''s1'', ''s2''] [] =
     (Some (Inr ()), [],
       [createRequest ''http://komga/api/v1/series/updated'' ''?page=0&size=40&deleted=false'' ''GET'',
        createRequest ''http://komga/api/v1/series/updated'' ''?page=1&size=40&deleted=false'' ''GET''])"
  by code_simp

lemma filterUpdatedManga_eval_older:
  "filterUpdatedManga 3 rt0 srv_pages sm0 (Some 15) [''s1'', ''s2''] [] =
     (Some (Inr ()), [],
       [createRequest ''http://komga/api/v1/series/updated'' ''?page=0&size=40&deleted=false''
          ''GET''])"
  by code_simp

text \<open>
  C4 at a failing input. The server lists the series \<^verbatim>\<open>s1\<close> and \<^verbatim>\<open>s2\<close>, modified
  at the times 20 and 10, on page 0, and nothing on page 1; the watermark is 5 and both
  identifiers are candidates. The walk asks for the two pages and ends, and the callback
  is never called: the loop tests \<^verbatim>\<open>ids.includes(serie)\<close> with the item itself, an
  object, which no array of identifier strings includes.
\<close>

theorem filterUpdatedManga_reports_nothing:
  "filterUpdatedManga 3 rt0 srv_pages sm0 (Some 5) [''s1'', ''s2''] [] =
     (Some (Inr ()), [],
       [createRequest ''http://komga/api/v1/series/updated'' ''?page=0&size=40&deleted=false'' ''GET'',
        createRequest ''http://komga/api/v1/series/updated'' ''?page=1&size=40&deleted=false'' ''GET'']) \<and>
   page_response 0 =
     \<lparr> status = 200,
       data = JObj [(''content'', JArr [a_serie ''s1'' ''One'' 20, a_serie ''s2'' ''Two'' 10])] \<rparr>"
  by (simp add: filterUpdatedManga_eval page_response_def)

text \<open>
  C5: at every point of every walk, ended or not, every item of every array passed to
  the callback so far has a last-modified time that is not earlier than the watermark.
\<close>

theorem filterUpdatedManga_not_older:
  assumes "filterUpdatedManga n rt srv sm time ids lg = (r, calls, lg')"
  shows "\<forall>found\<in>set calls. \<forall>s\<in>set found. not_older rt time s"
  using updated_loop_not_older [OF assms [unfolded filterUpdatedManga_def]] by simp

theorem filterUpdatedManga_not_older_witness:
  "filterUpdatedManga 3 rt0 srv_pages sm0 (Some 15) [''s1'', ''s2''] [] =
     (Some (Inr ()), [],
       [createRequest ''http://komga/api/v1/series/updated'' ''?page=0&size=40&deleted=false''
          ''GET'']) \<and>
   list_all (list_all (not_older rt0 (Some 15))) []"
  using filterUpdatedManga_not_older [OF filterUpdatedManga_eval_older]
  by (simp add: filterUpdatedManga_eval_older)

section \<open>The home page when the server cannot be reached\<close>

lemma getTags_unreachable:
  "getTags rt srv_down sm lg =
     (Inr [server_unavailable],
      lg @ [createRequest (api_string (getKomgaAPI sm) @ ''/genres'') [] ''GET''])"
  by (simp add: getTags_def schedule_def srv_down_def)

lemma getHomePageSections_unset:
  "getKomgaAPI sm = None \<Longrightarrow>
   getHomePageSections rt srv sm unavailableTiles lg = ((Inr (), [unset_section unavailableTiles]), lg)"
  by (simp add: getHomePageSections_def)

text \<open>
  C2 at a failing input. The server is configured and every call is rejected with a
  transport error. \<^verbatim>\<open>getHomePageSections\<close> reports the two placeholder sections, and
  then its promise is rejected with the transport error: the requests are awaited with
  \<^verbatim>\<open>Promise.all\<close> outside any \<^verbatim>\<open>try\<close>.
\<close>

theorem getHomePageSections_rejects:
  "getHomePageSections rt0 srv_down sm0 [] [] =
     ((Inl TransportError,
       [\<lparr> hs_id = ''new'', hs_title = ''Recently added series'', items = [],
          containsMoreItems = True \<rparr>,
        \<lparr> hs_id = ''updated'', hs_title = ''Recently updated series'', items = [],
          containsMoreItems = True \<rparr>]),
      [createRequest ''http://komga/api/v1/series/new'' ''?page=0&size=20&deleted=false'' ''GET'',
       createRequest ''http://komga/api/v1/series/updated'' ''?page=0&size=20&deleted=false''
         ''GET''])"
  by (simp add: getHomePageSections_def getKomgaAPI_def getOptions_def sm0_def home_sections_def
        section_request_def schedule_def srv_down_def settle_section_def bind_def)

end
